theory Spec2Isabelle
  imports Complex_Main "HOL-Library.AList" "HOL-Library.Word"
begin

section \<open>Python strings\<close>

text \<open>
  A Python \<open>str\<close> is modelled as a \<open>string\<close> with one \<open>char\<close> per character, which
  covers the code points below 256.  On these \<open>len\<close>, slicing, \<open>startswith\<close>, \<open>in\<close>,
  \<open>strip\<close> and \<open>lower\<close> behave as defined here.
\<close>

definition py_isspace :: "char \<Rightarrow> bool" where
  "py_isspace c = (of_char c \<in> {9, 10, 11, 12, 13, 28, 29, 30, 31, 32, 133, 160 :: nat})"

definition py_strip :: "string \<Rightarrow> string" where
  "py_strip s = rev (dropWhile py_isspace (rev (dropWhile py_isspace s)))"

definition py_lower_char :: "char \<Rightarrow> char" where
  "py_lower_char c =
     (let n = (of_char c :: nat)
      in if (65 \<le> n \<and> n \<le> 90) \<or> (192 \<le> n \<and> n \<le> 222 \<and> n \<noteq> 215)
         then char_of (n + 32) else c)"

definition py_lower :: "string \<Rightarrow> string" where
  "py_lower s = map py_lower_char s"

definition startswith :: "string \<Rightarrow> string \<Rightarrow> bool" where
  "startswith s p = (take (length p) s = p)"

text \<open>\<open>py_in p s\<close> is Python's \<open>p in s\<close>: \<open>p\<close> occurs in \<open>s\<close> as a contiguous run.\<close>

fun py_in :: "string \<Rightarrow> string \<Rightarrow> bool" where
  "py_in p [] = (p = [])"
| "py_in p (c # cs) = (startswith (c # cs) p \<or> py_in p cs)"

section \<open>The server: \<open>VOICE_ASSISTANT_OPENAI.py\<close>\<close>

subsection \<open>External services and the shared process state\<close>

type_synonym bytes = "8 word list"

text \<open>What a call to an external service does: it returns, or it raises an exception with a message.\<close>

datatype 'a outcome = Ret 'a | Raise string

datatype tts_chunk = AudioChunk bytes | OtherChunk

datatype ext_call =
    CallDecode bytes
  | CallExport bytes
  | CallWhisper bytes
  | CallChat string
  | CallSynth string

text \<open>
  The services of one connection.  \<open>decode_webm\<close> is pydub's decoding and
  normalisation of the upload and gives the length of the audio in milliseconds;
  \<open>chat\<close> raises, or returns a reply, of which it gives the content of the first
  choice, or the message of the exception that reading this content raises (the time
  of the response is recorded before the content is read);
  \<open>cost\<close> is the time in milliseconds that a call takes.  Audio that travels as
  base64 text is represented by the bytes it encodes.
\<close>

record env =
  decode_webm :: "bytes \<Rightarrow> nat outcome"
  export_wav :: "bytes \<Rightarrow> unit outcome"
  api_key :: bool
  whisper :: "bytes \<Rightarrow> string outcome"
  chat :: "string \<Rightarrow> (string + string) outcome"
  synth :: "string \<Rightarrow> tts_chunk list outcome"
  cost :: "ext_call \<Rightarrow> int"

datatype metric = Transcription_time | Response_time | Tts_time

text \<open>
  The module-level objects: the clock read by \<open>time.time()\<close> (in milliseconds), the
  single \<open>performance_monitor\<close>, the dictionary \<open>conversation_state\<close>, and the log of
  the calls made to the external services.
\<close>

record world =
  clock :: int
  pm_start_time :: "int option"
  pm_metrics :: "(metric \<times> int) list"
  is_processing :: bool
  current_websocket :: "nat option"
  calls :: "ext_call list"

definition world0 :: world where
  "world0 = \<lparr>clock = 1, pm_start_time = None, pm_metrics = [], is_processing = False,
     current_websocket = None, calls = []\<rparr>"

definition pm_start :: "world \<Rightarrow> world" where
  "pm_start w = w\<lparr>pm_start_time := Some (clock w),
     pm_metrics := [(Transcription_time, 0), (Response_time, 0), (Tts_time, 0)]\<rparr>"

definition pm_record :: "metric \<Rightarrow> world \<Rightarrow> world" where
  "pm_record stage w =
     (case pm_start_time w of
        None \<Rightarrow> w
      | Some t \<Rightarrow>
          if t = 0 then w
          else w\<lparr>pm_metrics := AList.update stage (clock w - t) (pm_metrics w),
                 pm_start_time := Some (clock w)\<rparr>)"

definition get_metrics :: "world \<Rightarrow> (metric \<times> int) list \<times> int" where
  "get_metrics w = (pm_metrics w, sum_list (map snd (pm_metrics w)))"

text \<open>
  A call that blocks: it is logged, and the clock of the process advances by the time it
  takes, since nothing else runs on the event loop meanwhile.
\<close>

definition call :: "env \<Rightarrow> ext_call \<Rightarrow> world \<Rightarrow> world" where
  "call e c w = w\<lparr>clock := clock w + cost e c, calls := calls w @ [c]\<rparr>"

subsection \<open>The three stages\<close>

text \<open>
  \<open>transcribe_audio_openai\<close> and \<open>get_openai_response\<close> are coroutines that never
  await: they call their services synchronously and catch every exception.  The
  \<open>asyncio.wait_for\<close> around them can therefore not cancel them, and they always return
  their string, however long they take.
\<close>

definition transcription_error :: "string \<Rightarrow> string" where
  "transcription_error e = ''[Transcription Error: '' @ e @ '']''"

definition transcribe_audio_openai :: "env \<Rightarrow> bytes \<Rightarrow> world \<Rightarrow> string \<times> world" where
  "transcribe_audio_openai e audio_data w =
     (let w1 = call e (CallDecode audio_data) (pm_start w) in
      case decode_webm e audio_data of
        Raise m \<Rightarrow> (transcription_error m, w1)
      | Ret len \<Rightarrow>
          (if len < 300 then ([], w1)
           else
             (let w2 = call e (CallExport audio_data) w1 in
              case export_wav e audio_data of
                Raise m \<Rightarrow> (transcription_error m, w2)
              | Ret _ \<Rightarrow>
                  (if \<not> api_key e then (''[ERROR: API key not configured]'', w2)
                   else
                     (let w3 = call e (CallWhisper audio_data) w2 in
                      case whisper e audio_data of
                        Raise m \<Rightarrow> (transcription_error m, w3)
                      | Ret transcript \<Rightarrow>
                          (py_strip transcript, pm_record Transcription_time w3))))))"

definition repeat_prompt :: string where
  "repeat_prompt = ''I didn't catch that. Could you please repeat?''"

definition trouble :: "string \<Rightarrow> string" where
  "trouble e = ''I'm having trouble connecting right now. Error: '' @ e"

definition get_openai_response :: "env \<Rightarrow> string \<Rightarrow> world \<Rightarrow> string \<times> world" where
  "get_openai_response e user_input w =
     (if py_strip user_input = [] \<or> startswith user_input ''[ERROR'' then (repeat_prompt, w)
      else if \<not> api_key e then
        (''[ERROR: OpenAI API key not configured. Please set the OPENAI_API_KEY environment variable.]'', w)
      else
        (let w1 = call e (CallChat user_input) w in
         case chat e user_input of
           Raise m \<Rightarrow> (trouble m, w1)
         | Ret (Inl m) \<Rightarrow> (trouble m, pm_record Response_time w1)
         | Ret (Inr content) \<Rightarrow> (py_strip content, pm_record Response_time w1)))"

text \<open>The text that \<open>text_to_speech\<close> hands to the synthesizer.\<close>

definition limit_text :: "string \<Rightarrow> string" where
  "limit_text text = (if length text > 150 then take 147 text @ ''...'' else text)"

fun collect_audio :: "tts_chunk list \<Rightarrow> bytes" where
  "collect_audio [] = []"
| "collect_audio (AudioChunk d # cs) = d @ collect_audio cs"
| "collect_audio (OtherChunk # cs) = collect_audio cs"

text \<open>What the stage returns when the stream of the synthesizer has come to its end.\<close>

definition tts_outcome :: "env \<Rightarrow> string \<Rightarrow> bytes option" where
  "tts_outcome e text =
     (case synth e (limit_text text) of
        Raise m \<Rightarrow> Some []
      | Ret chunks \<Rightarrow> Some (collect_audio chunks))"

text \<open>
  \<open>text_to_speech\<close> does await: it reads the stream of the synthesizer chunk by chunk,
  and at each chunk other handlers may run.  It is therefore given in two parts.
  \<open>tts_begin\<close> limits the text and opens the stream.  \<open>tts_end\<close> is reached when the
  handler runs again with the stream at its end or the \<open>wait_for\<close> of 10 seconds
  expired: \<open>started\<close> is the time of \<open>tts_begin\<close>, and the stream is complete \<open>cost\<close>
  milliseconds later.  When the stream alone takes longer than the timeout, the stage is
  cancelled at the deadline and gives \<open>None\<close>.  When the stream is in time but the process
  was kept busy beyond the deadline, the cancellation and the end of the stream are both
  due when the loop runs again, and \<open>expire\<close> says whether the cancellation wins.
  Otherwise the stage returns: the empty audio when the stream raised, the audio chunks
  joined when it did not.
\<close>

definition synth_timeout :: int where
  "synth_timeout = 10000"

definition tts_begin :: "env \<Rightarrow> string \<Rightarrow> world \<Rightarrow> world" where
  "tts_begin e text w = w\<lparr>calls := calls w @ [CallSynth (limit_text text)]\<rparr>"

definition tts_end :: "env \<Rightarrow> string \<Rightarrow> int \<Rightarrow> bool \<Rightarrow> world \<Rightarrow> bytes option \<times> world" where
  "tts_end e text started expire w =
     (let text' = limit_text text;
          ready = started + cost e (CallSynth text');
          deadline = started + synth_timeout
      in if deadline < ready then (None, w\<lparr>clock := max (clock w) deadline\<rparr>)
         else if deadline < clock w \<and> expire then (None, w)
         else
           (let w1 = w\<lparr>clock := max (clock w) ready\<rparr> in
            case synth e text' of
              Raise m \<Rightarrow> (Some [], w1)
            | Ret chunks \<Rightarrow> (Some (collect_audio chunks), pm_record Tts_time w1)))"

text \<open>\<open>text_to_speech\<close> under its \<open>wait_for\<close>, with no other handler running meanwhile.\<close>

definition text_to_speech :: "env \<Rightarrow> string \<Rightarrow> world \<Rightarrow> bytes option \<times> world" where
  "text_to_speech e text w = tts_end e text (clock w) False (tts_begin e text w)"

subsection \<open>The pipeline\<close>

datatype pa_result =
    PError string int
  | PResponse string string bytes int "(metric \<times> int) list \<times> int"

definition could_not_understand :: string where
  "could_not_understand = ''Could not understand audio. Please speak clearly and try again.''"

definition took_too_long :: string where
  "took_too_long = ''Processing took too long. Please try again.''"

text \<open>
  \<open>process_audio\<close>, with no other handler running meanwhile.  Of its three timeouts
  only the one around \<open>text_to_speech\<close> can expire.  The stage functions catch every
  exception themselves, so the last handler of the source (\<open>except Exception\<close>) has no
  branch here.
\<close>

definition process_audio :: "env \<Rightarrow> bytes \<Rightarrow> world \<Rightarrow> pa_result \<times> world" where
  "process_audio e audio_data w =
     (let total_start_time = clock w in
      case transcribe_audio_openai e audio_data w of
        (transcription, w1) \<Rightarrow>
          (if transcription = [] \<or> startswith transcription ''[ERROR''
           then (PError could_not_understand (clock w1 - total_start_time), w1)
           else
             (case get_openai_response e transcription w1 of
                (response, w2) \<Rightarrow>
                  (case text_to_speech e response w2 of
                     (None, w3) \<Rightarrow> (PError took_too_long (clock w3 - total_start_time), w3)
                   | (Some audio_base64, w3) \<Rightarrow>
                       (PResponse transcription response audio_base64
                          (clock w3 - total_start_time) (get_metrics w3), w3)))))"

text \<open>The calls that belong to the transcription stage, and the calls made between two worlds.\<close>

fun is_transcribe_call :: "ext_call \<Rightarrow> bool" where
  "is_transcribe_call (CallDecode _) = True"
| "is_transcribe_call (CallExport _) = True"
| "is_transcribe_call (CallWhisper _) = True"
| "is_transcribe_call (CallChat _) = False"
| "is_transcribe_call (CallSynth _) = False"

definition new_calls :: "world \<Rightarrow> world \<Rightarrow> ext_call list" where
  "new_calls w w' = drop (length (calls w)) (calls w')"

subsection \<open>The WebSocket endpoint\<close>

text \<open>
  What \<open>receive_json\<close> gives the handler: a message \<open>audio_data\<close> with what
  \<open>b64decode\<close> makes of its payload (the bytes, or the message of the exception raised
  for a missing or invalid payload); a message of another type; a frame that is no JSON
  object with a type, on which the handler ends in its last \<open>except\<close>; and the
  disconnect of the client.  The handler learns that the client has gone at
  \<open>receive_json\<close>; what it sends before is taken to be accepted by the socket.
\<close>

datatype in_msg = AudioData "string + bytes" | OtherMsg | Malformed | ClientGone

datatype out_msg =
    StateUpdate bool
  | ErrorMsg string "int option"
  | ResponseMsg string string bytes int "(metric \<times> int) list \<times> int"

text \<open>The body of the receive loop for one message that it serves, run without interruption.\<close>

definition handle_message :: "env \<Rightarrow> in_msg \<Rightarrow> world \<Rightarrow> out_msg list \<times> world" where
  "handle_message e m w =
     (case m of
        AudioData payload \<Rightarrow>
          (let w1 = w\<lparr>is_processing := True\<rparr>;
               (out, w2) =
                 (case payload of
                    Inl msg \<Rightarrow> ([ErrorMsg (''Failed to process audio: '' @ msg) None], w1)
                  | Inr audio_bytes \<Rightarrow>
                      (case process_audio e audio_bytes w1 of
                         (PError msg t, w2) \<Rightarrow> ([ErrorMsg msg (Some t)], w2)
                       | (PResponse tr resp au t ms, w2) \<Rightarrow> ([ResponseMsg tr resp au t ms], w2)))
           in (StateUpdate True # out @ [StateUpdate False], w2\<lparr>is_processing := False\<rparr>))
      | _ \<Rightarrow> ([], w))"

text \<open>The receive loop over the messages that arrive, run without interruption.\<close>

fun websocket_endpoint :: "env \<Rightarrow> in_msg list \<Rightarrow> world \<Rightarrow> out_msg list \<times> world" where
  "websocket_endpoint e [] w = ([], w)"
| "websocket_endpoint e (ClientGone # rest) w = ([], w\<lparr>current_websocket := None\<rparr>)"
| "websocket_endpoint e (Malformed # rest) w = ([], w)"
| "websocket_endpoint e (m # rest) w =
     (case handle_message e m w of
        (out, w1) \<Rightarrow>
          (case websocket_endpoint e rest w1 of (outs, w2) \<Rightarrow> (out @ outs, w2)))"

subsection \<open>Connections that run side by side\<close>

text \<open>
  The handler of a connection gives up control where it awaits.  A connection is
  therefore a small machine: between two points it runs without interruption, and at a
  point the handlers of other connections may run.  The points are \<open>receive_json\<close>, the
  sends, the three \<open>wait_for\<close>s (each may hand its coroutine to a task of its own, before
  and after which the loop runs other handlers) and the stream of the synthesizer.  The
  blocking calls to the transcription and chat services sit inside one step.  Two steps
  of one connection that follow each other are a stretch without interruption, so the
  machine also covers an event loop that gives up control at fewer places.
\<close>

datatype point =
    Receiving
  | Decoding "string + bytes"
  | Transcribing bytes
  | Transcribed string
  | Answering string
  | Answered string string
  | Synthesizing string string
  | Synthesized string string "bytes option"
  | Finishing
  | Ended

record session =
  pt :: point
  inbox :: "in_msg list"
  outbox :: "out_msg list"
  total_start_time :: int
  tts_started :: int

definition session0 :: session where
  "session0 = \<lparr>pt = Receiving, inbox = [], outbox = [], total_start_time = 0, tts_started = 0\<rparr>"

definition send :: "out_msg \<Rightarrow> session \<Rightarrow> session" where
  "send m s = s\<lparr>outbox := outbox s @ [m]\<rparr>"

definition fail_with :: "string \<Rightarrow> session \<Rightarrow> world \<Rightarrow> session \<times> world" where
  "fail_with msg s w =
     (send (ErrorMsg msg (Some (clock w - total_start_time s))) (s\<lparr>pt := Finishing\<rparr>), w)"

text \<open>
  A step of the handler from its point to the next; \<open>expire\<close> is read at the end of the
  synthesis only (see \<open>tts_end\<close>).
\<close>

definition sess_step :: "env \<Rightarrow> bool \<Rightarrow> session \<Rightarrow> world \<Rightarrow> session \<times> world" where
  "sess_step e expire s w =
     (case pt s of
        Receiving \<Rightarrow>
          (case inbox s of
             [] \<Rightarrow> (s, w)
           | OtherMsg # rest \<Rightarrow> (s\<lparr>inbox := rest\<rparr>, w)
           | Malformed # rest \<Rightarrow> (s\<lparr>pt := Ended, inbox := rest\<rparr>, w)
           | ClientGone # rest \<Rightarrow>
               (s\<lparr>pt := Ended, inbox := rest\<rparr>, w\<lparr>current_websocket := None\<rparr>)
           | AudioData payload # rest \<Rightarrow>
               (send (StateUpdate True) (s\<lparr>pt := Decoding payload, inbox := rest\<rparr>),
                w\<lparr>is_processing := True\<rparr>))
      | Decoding payload \<Rightarrow>
          (case payload of
             Inl msg \<Rightarrow>
               (send (ErrorMsg (''Failed to process audio: '' @ msg) None) (s\<lparr>pt := Finishing\<rparr>), w)
           | Inr audio_bytes \<Rightarrow>
               (s\<lparr>pt := Transcribing audio_bytes, total_start_time := clock w\<rparr>, w))
      | Transcribing audio_bytes \<Rightarrow>
          (case transcribe_audio_openai e audio_bytes w of
             (transcription, w1) \<Rightarrow> (s\<lparr>pt := Transcribed transcription\<rparr>, w1))
      | Transcribed transcription \<Rightarrow>
          (if transcription = [] \<or> startswith transcription ''[ERROR''
           then fail_with could_not_understand s w
           else (s\<lparr>pt := Answering transcription\<rparr>, w))
      | Answering transcription \<Rightarrow>
          (case get_openai_response e transcription w of
             (response, w1) \<Rightarrow> (s\<lparr>pt := Answered transcription response\<rparr>, w1))
      | Answered transcription response \<Rightarrow>
          (s\<lparr>pt := Synthesizing transcription response, tts_started := clock w\<rparr>,
           tts_begin e response w)
      | Synthesizing transcription response \<Rightarrow>
          (case tts_end e response (tts_started s) expire w of
             (a, w1) \<Rightarrow> (s\<lparr>pt := Synthesized transcription response a\<rparr>, w1))
      | Synthesized transcription response a \<Rightarrow>
          (case a of
             None \<Rightarrow> fail_with took_too_long s w
           | Some audio_base64 \<Rightarrow>
               (send (ResponseMsg transcription response audio_base64
                        (clock w - total_start_time s) (get_metrics w))
                  (s\<lparr>pt := Finishing\<rparr>), w))
      | Finishing \<Rightarrow>
          (send (StateUpdate False) (s\<lparr>pt := Receiving\<rparr>), w\<lparr>is_processing := False\<rparr>)
      | Ended \<Rightarrow> (s, w))"

text \<open>A step of the handler of a connection that has the process to itself.\<close>

definition handler_step :: "env \<Rightarrow> session \<times> world \<Rightarrow> session \<times> world" where
  "handler_step e sw = sess_step e True (fst sw) (snd sw)"

type_synonym sid = nat

record system =
  shared :: world
  sessions :: "sid \<Rightarrow> session"

datatype sched_event = Connect sid | Deliver sid in_msg | Step sid bool

text \<open>
  \<open>Connect\<close> is \<open>websocket.accept()\<close> and the store into \<open>current_websocket\<close>;
  \<open>Deliver\<close> is a message of the client, or its disconnect, arriving; \<open>Step\<close> runs the
  handler of a connection to its next point.
\<close>

definition sys_step :: "(sid \<Rightarrow> env) \<Rightarrow> sched_event \<Rightarrow> system \<Rightarrow> system" where
  "sys_step envs ev sys =
     (case ev of
        Connect i \<Rightarrow>
          sys\<lparr>shared := (shared sys)\<lparr>current_websocket := Some i\<rparr>,
               sessions := (sessions sys)(i := session0)\<rparr>
      | Deliver i m \<Rightarrow>
          sys\<lparr>sessions := (sessions sys)(i := (sessions sys i)\<lparr>inbox := inbox (sessions sys i) @ [m]\<rparr>)\<rparr>
      | Step i expire \<Rightarrow>
          (case sess_step (envs i) expire (sessions sys i) (shared sys) of
             (s', w') \<Rightarrow> sys\<lparr>shared := w', sessions := (sessions sys)(i := s')\<rparr>))"

definition run_schedule :: "(sid \<Rightarrow> env) \<Rightarrow> sched_event list \<Rightarrow> system \<Rightarrow> system" where
  "run_schedule envs evs sys = fold (sys_step envs) evs sys"

definition system0 :: system where
  "system0 = \<lparr>shared = world0, sessions = (\<lambda>i. session0)\<rparr>"

text \<open>
  What a connection has been sent, without the clock readings: the processing time and
  the metrics.
\<close>

datatype out_view = VState bool | VError string | VResponse string string bytes

fun view_msg :: "out_msg \<Rightarrow> out_view" where
  "view_msg (StateUpdate b) = VState b"
| "view_msg (ErrorMsg msg t) = VError msg"
| "view_msg (ResponseMsg tr resp au t ms) = VResponse tr resp au"

definition payload :: "session \<Rightarrow> out_view list" where
  "payload s = map view_msg (outbox s)"

fun is_response :: "out_view \<Rightarrow> bool" where
  "is_response (VResponse tr resp au) = True"
| "is_response v = False"

text \<open>
  Two messages agree when they are the same, timing apart, or when one is the error of
  the timeout where the other is a response; \<open>cut_off\<close> is the one-sided form.
\<close>

definition cut_off :: "out_view \<Rightarrow> out_view \<Rightarrow> bool" where
  "cut_off v v' = (v = v' \<or> (v = VError took_too_long \<and> is_response v'))"

definition agree :: "out_view \<Rightarrow> out_view \<Rightarrow> bool" where
  "agree v v' = (cut_off v v' \<or> cut_off v' v)"

definition sview :: "session \<Rightarrow> point \<times> in_msg list \<times> out_view list" where
  "sview s = (pt s, inbox s, payload s)"

text \<open>
  One handler follows another when both have the same pending messages, their messages
  agree one-sidedly, and they are at the same point, unless the first was cut off at the
  end of the synthesis where the second was not.
\<close>

definition pt_cut :: "point \<Rightarrow> point \<Rightarrow> bool" where
  "pt_cut p p' =
     (p = p' \<or> (\<exists>tr resp au. p = Synthesized tr resp None \<and> p' = Synthesized tr resp (Some au)))"

definition follows :: "session \<Rightarrow> session \<Rightarrow> bool" where
  "follows s s' =
     (inbox s = inbox s' \<and> pt_cut (pt s) (pt s') \<and> list_all2 cut_off (payload s) (payload s'))"

text \<open>A handler in the middle of the synthesis, and one whose deadline has not passed.\<close>

fun synthesizing :: "point \<Rightarrow> bool" where
  "synthesizing (Synthesizing tr resp) = True"
| "synthesizing p = False"

definition in_time :: "session \<Rightarrow> world \<Rightarrow> bool" where
  "in_time s w = (synthesizing (pt s) \<longrightarrow> clock w \<le> tts_started s + synth_timeout)"

fun concerns :: "sid \<Rightarrow> sched_event \<Rightarrow> bool" where
  "concerns i (Connect j) = (i = j)"
| "concerns i (Deliver j m) = (i = j)"
| "concerns i (Step j expire) = (i = j)"

subsection \<open>Sample services\<close>

definition demo_audio :: bytes where
  "demo_audio = [26, 69, 223, 163]"

definition demo_cost :: "ext_call \<Rightarrow> int" where
  "demo_cost c =
     (case c of CallDecode _ \<Rightarrow> 100 | CallExport _ \<Rightarrow> 20 | CallWhisper _ \<Rightarrow> 1000
      | CallChat _ \<Rightarrow> 500 | CallSynth _ \<Rightarrow> 300)"

definition demo_env :: env where
  "demo_env = \<lparr>decode_webm = (\<lambda>a. Ret 1200), export_wav = (\<lambda>a. Ret ()), api_key = True,
     whisper = (\<lambda>a. Ret ''Where is my parcel? ''),
     chat = (\<lambda>t. Ret (Inr ''It arrives tomorrow.'')),
     synth = (\<lambda>t. Ret [AudioChunk [73, 68, 51], OtherChunk, AudioChunk [4]]),
     cost = demo_cost\<rparr>"

text \<open>
  An upload of 100 ms; no API key; an upload that pydub cannot decode; services that
  take two seconds for every call; services that take five seconds for every call.
\<close>

definition env_short :: env where
  "env_short = demo_env\<lparr>decode_webm := (\<lambda>a. Ret 100)\<rparr>"

definition env_nokey :: env where
  "env_nokey = demo_env\<lparr>api_key := False\<rparr>"

definition env_badwebm :: env where
  "env_badwebm = demo_env\<lparr>decode_webm := (\<lambda>a. Raise ''Decoding failed'')\<rparr>"

definition env_slow :: env where
  "env_slow = demo_env\<lparr>cost := (\<lambda>c. 2000)\<rparr>"

definition env_slower :: env where
  "env_slower = demo_env\<lparr>cost := (\<lambda>c. 5000)\<rparr>"

text \<open>
  Two connections, 0 and 1, each sending one recording.  Connection 0 runs up to the
  stream of the synthesizer and, later, from there to its end.  In the first schedule
  connection 1 stays idle meanwhile; in the second and third its handler takes its
  upload and runs up to its own stream while connection 0 waits for its chunks.
\<close>

definition demo_envs :: "sid \<Rightarrow> env" where
  "demo_envs i = (if i = 0 then demo_env else env_slow)"

definition demo_envs_slower :: "sid \<Rightarrow> env" where
  "demo_envs_slower i = (if i = 0 then demo_env else env_slower)"

definition first_half :: "sched_event list" where
  "first_half =
     [Connect 0, Connect 1, Deliver 0 (AudioData (Inr demo_audio)),
      Step 0 True, Step 0 True, Step 0 True, Step 0 True, Step 0 True, Step 0 True]"

definition second_half :: "sched_event list" where
  "second_half = [Step 0 True, Step 0 True, Step 0 True]"

definition other_upload :: "sched_event list" where
  "other_upload =
     [Deliver 1 (AudioData (Inr demo_audio)),
      Step 1 True, Step 1 True, Step 1 True, Step 1 True, Step 1 True, Step 1 True]"

definition schedule_idle :: "sched_event list" where
  "schedule_idle = first_half @ second_half"

definition schedule_busy :: "sched_event list" where
  "schedule_busy = first_half @ other_upload @ second_half"

section \<open>The local assistant: \<open>app.py\<close>\<close>

subsection \<open>Answering from the knowledge base\<close>

text \<open>
  The embedder and the vector collection.  A query gives \<open>results["metadatas"][0]\<close>,
  one dictionary per hit; either call may raise.
\<close>

record 'e kb =
  encode :: "string \<Rightarrow> string + 'e"
  query :: "'e \<Rightarrow> nat \<Rightarrow> string + (string \<rightharpoonup> string) list"

datatype 'e kb_call = KbEncode string | KbQuery 'e nat

definition garbled_indicators :: "string list" where
  "garbled_indicators = [''murder'', ''oh i see'', ''that is'', ''of and that'']"

definition sorry_message :: string where
  "sorry_message = ''Sorry, I didn't catch that. Could you please repeat your question?''"

definition clarify_message :: string where
  "clarify_message =
     ''I'm having trouble understanding. Could you please repeat your question more clearly?''"

text \<open>The loop over the indicators: does one of them occur in the lower-cased question?\<close>

fun garbled :: "string list \<Rightarrow> string \<Rightarrow> bool" where
  "garbled [] question_lower = False"
| "garbled (indicator # rest) question_lower =
     (if py_in indicator question_lower then True else garbled rest question_lower)"

definition metadata_answer :: "(string \<rightharpoonup> string) \<Rightarrow> string" where
  "metadata_answer md = (case md ''answer'' of None \<Rightarrow> ''No answer found.'' | Some a \<Rightarrow> a)"

text \<open>\<open>query_chroma_db\<close> gives the calls it made and its answers, or the exception raised.\<close>

definition query_chroma_db ::
  "'e kb \<Rightarrow> string \<Rightarrow> nat \<Rightarrow> 'e kb_call list \<times> (string + string list)" where
  "query_chroma_db k question_text top_k =
     (if py_strip question_text = [] then ([], Inr [sorry_message])
      else if garbled garbled_indicators (py_lower question_text)
      then ([], Inr [clarify_message])
      else
        case encode k question_text of
          Inl m \<Rightarrow> ([KbEncode question_text], Inl m)
        | Inr query_emb \<Rightarrow>
            (case query k query_emb top_k of
               Inl m \<Rightarrow> ([KbEncode question_text, KbQuery query_emb top_k], Inl m)
             | Inr metadatas \<Rightarrow>
                 ([KbEncode question_text, KbQuery query_emb top_k],
                  Inr (map metadata_answer metadatas))))"

definition demo_kb :: "nat kb" where
  "demo_kb = \<lparr>encode = (\<lambda>s. Inr (length s)),
     query = (\<lambda>emb n. Inr [[''answer'' \<mapsto> ''We deliver in three days.'']])\<rparr>"

subsection \<open>The playback gate\<close>

text \<open>
  The variables that \<open>audio_callback\<close> and \<open>speak_text\<close> share, with a clock in
  milliseconds; \<open>play_ended\<close> and \<open>gate_cleared\<close> note when the last playback ended and
  when \<open>listening_active\<close> was last set again.  \<open>in_flight\<close> is the block of a callback
  that has read the flag and has not yet put the block into the queue.
\<close>

record assistant =
  listening_active :: bool
  q_audio :: "bytes list"
  in_flight :: "bytes option"
  lclock :: nat
  play_ended :: "nat option"
  gate_cleared :: "nat option"

text \<open>
  \<open>audio_callback\<close> runs on the thread of the sound device and does not take
  \<open>audio_lock\<close>: between its test of the flag and its \<open>put\<close> the main thread may run.
  It is therefore given in its two parts, and as a whole for a callback that is not
  interrupted.
\<close>

definition callback_test :: "bytes \<Rightarrow> assistant \<Rightarrow> assistant" where
  "callback_test indata l = (if listening_active l then l\<lparr>in_flight := Some indata\<rparr> else l)"

definition callback_put :: "assistant \<Rightarrow> assistant" where
  "callback_put l =
     (case in_flight l of
        None \<Rightarrow> l
      | Some indata \<Rightarrow> l\<lparr>q_audio := q_audio l @ [indata], in_flight := None\<rparr>)"

definition audio_callback :: "bytes \<Rightarrow> assistant \<Rightarrow> assistant" where
  "audio_callback indata l = callback_put (callback_test indata l)"

text \<open>
  The synthesizer and the player: \<open>tts\<close> gives the audio to play, or the message of the
  exception raised while it is synthesized or converted; \<open>synth_ms\<close> and \<open>play_ms\<close> are
  the times that synthesis and playback take.
\<close>

record speaker =
  tts :: "string \<Rightarrow> string + bytes"
  synth_ms :: "string \<Rightarrow> nat"
  play_ms :: "bytes \<Rightarrow> nat"

text \<open>
  \<open>speak_text\<close> runs on the main thread, so it is given as the sequence of its steps:
  the flag is cleared, the text is synthesized, the audio is played when there is any,
  and in the \<open>finally\<close> block the thread sleeps for half a second and sets the flag
  again.
\<close>

datatype speak_step = GateOn | Wait nat | Play nat | Sleep nat | GateOff

definition speak_body :: "speaker \<Rightarrow> string \<Rightarrow> speak_step list" where
  "speak_body sp text =
     (case tts sp text of
        Inl msg \<Rightarrow> [Wait (synth_ms sp text)]
      | Inr audio_data \<Rightarrow> [Wait (synth_ms sp text), Play (play_ms sp audio_data)])
     @ [Sleep 500]"

definition speak_text :: "speaker \<Rightarrow> string \<Rightarrow> speak_step list" where
  "speak_text sp text = GateOn # speak_body sp text @ [GateOff]"

fun speak_exec :: "speak_step \<Rightarrow> assistant \<Rightarrow> assistant" where
  "speak_exec GateOn l = l\<lparr>listening_active := False\<rparr>"
| "speak_exec (Wait d) l = l\<lparr>lclock := lclock l + d\<rparr>"
| "speak_exec (Play d) l = l\<lparr>lclock := lclock l + d, play_ended := Some (lclock l + d)\<rparr>"
| "speak_exec (Sleep d) l = l\<lparr>lclock := lclock l + d\<rparr>"
| "speak_exec GateOff l = l\<lparr>listening_active := True, gate_cleared := Some (lclock l)\<rparr>"

text \<open>
  What happens in the process: a step of \<open>speak_text\<close>, the test of a callback, or its
  \<open>put\<close>.  The device calls the callback again only when the last call has returned.
\<close>

datatype local_event = Spk speak_step | MicTest bytes | MicPut

fun local_step :: "local_event \<Rightarrow> assistant \<Rightarrow> assistant" where
  "local_step (Spk st) l = speak_exec st l"
| "local_step (MicTest indata) l = (if in_flight l = None then callback_test indata l else l)"
| "local_step MicPut l = callback_put l"

definition local_run :: "local_event list \<Rightarrow> assistant \<Rightarrow> assistant" where
  "local_run evs l = fold local_step evs l"

fun is_spk :: "local_event \<Rightarrow> bool" where
  "is_spk (Spk st) = True"
| "is_spk ev = False"

text \<open>The part of the state that \<open>speak_text\<close> writes; the callback writes none of it.\<close>

definition gate_view :: "assistant \<Rightarrow> bool \<times> nat \<times> nat option \<times> nat option" where
  "gate_view l = (listening_active l, lclock l, play_ended l, gate_cleared l)"




section \<open>The browser client: \<open>class VoiceAssistant\<close>\<close>

text \<open>
  The fields of the object, and what the browser holds for it.  \<open>microphone\<close> stands
  for the microphone node together with the analyser and the audio context, which are set
  and cleared together; \<open>silenceTimeout\<close> holds the time at which the pending timer is
  due; \<open>ui\<close> is the state last given to \<open>updateUI\<close>; \<open>now\<close> is the browser's clock in
  milliseconds; \<open>recorded_ms\<close> is what the running recorder has captured; \<open>pending\<close>
  are the recorders that were stopped and whose \<open>stop\<close> event is still to come;
  \<open>playing\<close> says that a reply started by \<open>playAudio\<close> is still sounding; \<open>sent\<close> are
  the uploads; \<open>history\<close> lists the recordings started and stopped and the replies played.
\<close>

datatype ui_state = Idle | Listening | Recording | Processing

datatype action = StartRecording | StopRecording | PlayAudio

record client =
  autoMode :: bool
  isRecording :: bool
  isProcessing :: bool
  microphone :: bool
  mediaRecorder :: bool
  audioChunks :: "nat list"
  silenceTimeout :: "nat option"
  ui :: ui_state
  now :: nat
  recorded_ms :: nat
  pending :: "nat list"
  playing :: bool
  ws_open :: bool
  webm_supported :: bool
  sent :: "nat list list"
  history :: "action list"

definition volumeThreshold :: rat where
  "volumeThreshold = 25"

definition silenceDelay :: nat where
  "silenceDelay = 2000"

text \<open>The server's constant \<open>MAX_RECORDING_TIME\<close> of 10 seconds, in milliseconds.\<close>

definition MAX_RECORDING_TIME :: nat where
  "MAX_RECORDING_TIME = 10000"

definition client0 :: client where
  "client0 = \<lparr>autoMode = False, isRecording = False, isProcessing = False,
     microphone = False, mediaRecorder = False, audioChunks = [], silenceTimeout = None,
     ui = Idle, now = 0, recorded_ms = 0, pending = [], playing = False, ws_open = False,
     webm_supported = True, sent = [], history = []\<rparr>"

text \<open>
  \<open>startRecording(autoMode)\<close>.  In auto mode the stream of the microphone node is used;
  otherwise \<open>getUserMedia\<close> is asked, and \<open>granted\<close> says whether it gives a stream.
  The constructor of the recorder throws where the browser does not record WebM; both
  failures are caught and leave the fields as they are.
\<close>

definition startRecording :: "bool \<Rightarrow> bool \<Rightarrow> client \<Rightarrow> client" where
  "startRecording auto granted c =
     (if ((auto \<and> microphone c) \<or> granted) \<and> webm_supported c
      then c\<lparr>mediaRecorder := True, audioChunks := [], isRecording := True,
             recorded_ms := 0, ui := Recording, history := history c @ [StartRecording]\<rparr>
      else c)"

definition stopRecording :: "client \<Rightarrow> client" where
  "stopRecording c =
     (if mediaRecorder c \<and> isRecording c
      then c\<lparr>isRecording := False, ui := Processing, pending := pending c @ [recorded_ms c],
             history := history c @ [StopRecording]\<rparr>
      else c)"

text \<open>
  \<open>checkAudio\<close>, the body of the monitoring loop, with the average of the analyser's
  bins.  Without an analyser the read throws and the loop ends.
\<close>

definition checkAudio :: "rat \<Rightarrow> client \<Rightarrow> client" where
  "checkAudio average c =
     (if \<not> autoMode c then c
      else if \<not> microphone c then c
      else if average > volumeThreshold \<and> \<not> isRecording c \<and> \<not> isProcessing c
      then startRecording True False c
      else if isRecording c \<and> average < volumeThreshold / 2
      then (if silenceTimeout c = None
            then c\<lparr>silenceTimeout := Some (now c + silenceDelay)\<rparr> else c)
      else if isRecording c \<and> average > volumeThreshold / 2
      then c\<lparr>silenceTimeout := None\<rparr>
      else c)"

text \<open>The callback of the silence timer; the browser runs it once the timer is due.\<close>

definition silence_callback :: "client \<Rightarrow> client" where
  "silence_callback c =
     (case silenceTimeout c of
        None \<Rightarrow> c
      | Some due \<Rightarrow>
          if due \<le> now c
          then (if isRecording c then stopRecording c else c)\<lparr>silenceTimeout := None\<rparr>
          else c)"

definition startAutoListening :: "bool \<Rightarrow> client \<Rightarrow> client" where
  "startAutoListening granted c =
     (if granted then c\<lparr>microphone := True, ui := Listening\<rparr> else c\<lparr>autoMode := False\<rparr>)"

definition stopAutoListening :: "client \<Rightarrow> client" where
  "stopAutoListening c =
     (let c1 = c\<lparr>microphone := False, silenceTimeout := None\<rparr>;
          c2 = (if isRecording c1 then stopRecording c1 else c1)
      in c2\<lparr>ui := Idle\<rparr>)"

definition toggleAutoMode :: "bool \<Rightarrow> client \<Rightarrow> client" where
  "toggleAutoMode granted c =
     (let c1 = c\<lparr>autoMode := \<not> autoMode c\<rparr>
      in if autoMode c1 then startAutoListening granted c1 else stopAutoListening c1)"

definition click_mic :: "bool \<Rightarrow> client \<Rightarrow> client" where
  "click_mic granted c =
     (if autoMode c then toggleAutoMode granted c
      else if isRecording c then stopRecording c
      else if \<not> isProcessing c then startRecording False granted c
      else c)"

text \<open>
  The \<open>stop\<close> event of a recorder: its data arrive in \<open>audioChunks\<close>, and
  \<open>processRecording\<close> uploads the chunks when the socket is open.  The conversion of
  the recording to base64 is taken to succeed.
\<close>

definition on_stop :: "client \<Rightarrow> client" where
  "on_stop c =
     (case pending c of
        [] \<Rightarrow> c
      | d # rest \<Rightarrow>
          (let chunks = (if d > 0 then audioChunks c @ [d] else audioChunks c);
               c1 = c\<lparr>pending := rest, audioChunks := chunks\<rparr>
           in if ws_open c then c1\<lparr>sent := sent c @ [chunks]\<rparr> else c1\<lparr>ui := Idle\<rparr>))"

text \<open>
  The messages of the server.  A response says whether it carries audio that starts to
  play.
\<close>

datatype server_msg = MsgResponse bool | MsgError | MsgStateUpdate bool

definition handleWebSocketMessage :: "server_msg \<Rightarrow> client \<Rightarrow> client" where
  "handleWebSocketMessage m c =
     (case m of
        MsgResponse audio \<Rightarrow>
          (let c1 = (if audio then c\<lparr>playing := True, history := history c @ [PlayAudio]\<rparr> else c)
           in c1\<lparr>ui := (if autoMode c then Listening else Idle)\<rparr>)
      | MsgError \<Rightarrow> c\<lparr>ui := (if autoMode c then Listening else Idle)\<rparr>
      | MsgStateUpdate b \<Rightarrow> c\<lparr>isProcessing := b\<rparr>)"

datatype event =
    Frame rat
  | Elapse nat
  | SilenceTimer
  | ClickAutoMode bool
  | ClickMic bool
  | OnStop
  | Message server_msg
  | AudioEnded
  | WsOpened
  | WsClosed

definition step :: "event \<Rightarrow> client \<Rightarrow> client" where
  "step ev c =
     (case ev of
        Frame average \<Rightarrow> checkAudio average c
      | Elapse dt \<Rightarrow>
          c\<lparr>now := now c + dt,
            recorded_ms := (if isRecording c then recorded_ms c + dt else recorded_ms c)\<rparr>
      | SilenceTimer \<Rightarrow> silence_callback c
      | ClickAutoMode granted \<Rightarrow> toggleAutoMode granted c
      | ClickMic granted \<Rightarrow> click_mic granted c
      | OnStop \<Rightarrow> on_stop c
      | Message m \<Rightarrow> handleWebSocketMessage m c
      | AudioEnded \<Rightarrow> c\<lparr>playing := False\<rparr>
      | WsOpened \<Rightarrow> c\<lparr>ws_open := True\<rparr>
      | WsClosed \<Rightarrow> c\<lparr>ws_open := False\<rparr>)"

definition run :: "event list \<Rightarrow> client \<Rightarrow> client" where
  "run evs c = fold step evs c"

text \<open>The events of voice detection, and the time that a list of events takes.\<close>

fun is_vad_event :: "event \<Rightarrow> bool" where
  "is_vad_event (Frame a) = True"
| "is_vad_event (Elapse dt) = True"
| "is_vad_event SilenceTimer = True"
| "is_vad_event ev = False"

fun elapsed :: "event list \<Rightarrow> nat" where
  "elapsed [] = 0"
| "elapsed (Elapse dt # evs) = dt + elapsed evs"
| "elapsed (ev # evs) = elapsed evs"

text \<open>
  Sample runs in auto mode.  A turn: speech, two seconds of silence, the upload, and the
  server's messages up to the reply that plays; the same turn up to the server's notice
  that it is processing; an utterance that has just begun; eleven seconds of speech; a
  dip in the loudness that lasts 1.9 seconds.
\<close>

definition listening_events :: "event list" where
  "listening_events = [WsOpened, ClickAutoMode True]"

definition turn_events :: "event list" where
  "turn_events =
     listening_events @
     [Frame 30, Elapse 900, Frame 5, Elapse 2000, SilenceTimer, OnStop,
      Message (MsgStateUpdate True), Message (MsgResponse True), Message (MsgStateUpdate False)]"

definition processing_events :: "event list" where
  "processing_events =
     listening_events @
     [Frame 30, Elapse 900, Frame 5, Elapse 2000, SilenceTimer, OnStop,
      Message (MsgStateUpdate True)]"

definition recording_events :: "event list" where
  "recording_events = listening_events @ [Frame 30, Elapse 900]"

definition long_speech_events :: "event list" where
  "long_speech_events = listening_events @ [Frame 30, Elapse 11000, Frame 30]"

definition dip_events :: "event list" where
  "dip_events = [Frame 10, Elapse 700, SilenceTimer, Frame 8, Elapse 1200]"

section \<open>Facts about the string operations\<close>

lemma startswith_iff: "startswith s p \<longleftrightarrow> (\<exists>b. s = p @ b)"
  unfolding startswith_def
  by (metis append_eq_conv_conj append_take_drop_id)

lemma py_in_iff: "py_in p s \<longleftrightarrow> (\<exists>a b. s = a @ p @ b)"
proof (induction s)
  case Nil
  then show ?case by auto
next
  case (Cons c cs)
  have "(\<exists>a b. c # cs = a @ p @ b) \<longleftrightarrow> (\<exists>b. c # cs = p @ b) \<or> (\<exists>a' b. cs = a' @ p @ b)"
    by (auto simp: Cons_eq_append_conv)
  then show ?case
    using Cons by (simp add: startswith_iff)
qed

lemma garbled_iff: "garbled inds q \<longleftrightarrow> (\<exists>i \<in> set inds. py_in i q)"
  by (induction inds) auto

section \<open>The synthesizer's text\<close>

text \<open>
  Claim C9.  For every input string, \<open>text_to_speech\<close> makes exactly one call to the
  synthesizer, with a text of at most 150 characters: an input longer than 150
  characters is replaced by its first 147 characters followed by three dots, and an
  input of 150 characters or fewer is synthesized unchanged.  What \<open>text_to_speech\<close>
  returns is made of what the synthesizer gives for that text and of nothing else.
\<close>

theorem text_to_speech_truncates:
  "calls (snd (text_to_speech e input w)) = calls w @ [CallSynth (limit_text input)]
   \<and> fst (text_to_speech e input w)
       = (if synth_timeout < cost e (CallSynth (limit_text input)) then None
          else case synth e (limit_text input) of
                 Raise m \<Rightarrow> Some []
               | Ret chunks \<Rightarrow> Some (collect_audio chunks))
   \<and> length (limit_text input) \<le> 150
   \<and> (150 < length input \<longrightarrow> limit_text input = take 147 input @ ''...'')
   \<and> (length input \<le> 150 \<longrightarrow> limit_text input = input)"
  by (simp add: text_to_speech_def tts_begin_def tts_end_def limit_text_def pm_record_def
      Let_def split: outcome.splits option.splits)

theorem text_to_speech_truncates_witness:
  "150 < length (replicate 151 CHR ''a'')
   \<and> limit_text (replicate 151 CHR ''a'') = replicate 147 CHR ''a'' @ ''...''
   \<and> calls (snd (text_to_speech demo_env (replicate 151 CHR ''a'') world0))
       = [CallSynth (replicate 147 CHR ''a'' @ ''...'')]
   \<and> fst (text_to_speech demo_env (replicate 151 CHR ''a'') world0) = Some [73, 68, 51, 4]
   \<and> length ''Your parcel is on its way.'' \<le> 150
   \<and> limit_text ''Your parcel is on its way.'' = ''Your parcel is on its way.''"
proof -
  have h1: "150 < length (replicate 151 CHR ''a'')"
    by simp
  have h2: "length ''Your parcel is on its way.'' \<le> 150"
    by simp
  have c: "cost demo_env (CallSynth (replicate 147 CHR ''a'' @ ''...'')) = 300"
    "synth demo_env (replicate 147 CHR ''a'' @ ''...'')
       = Ret [AudioChunk [73, 68, 51], OtherChunk, AudioChunk [4]]"
    "calls world0 = []"
    by (simp_all add: demo_env_def demo_cost_def world0_def)
  note r1 = text_to_speech_truncates [where input = "replicate 151 CHR ''a''"
      and e = demo_env and w = world0]
  note r2 = text_to_speech_truncates [where input = "''Your parcel is on its way.''"
      and e = demo_env and w = world0]
  from r1 h1 have a: "limit_text (replicate 151 CHR ''a'') = replicate 147 CHR ''a'' @ ''...''"
    by simp
  from r1 a c have b: "calls (snd (text_to_speech demo_env (replicate 151 CHR ''a'') world0))
       = [CallSynth (replicate 147 CHR ''a'' @ ''...'')]"
    by simp
  from r1 a c have d: "fst (text_to_speech demo_env (replicate 151 CHR ''a'') world0)
       = Some [73, 68, 51, 4]"
    by (simp add: synth_timeout_def)
  from r2 h2 have f: "limit_text ''Your parcel is on its way.'' = ''Your parcel is on its way.''"
    by blast
  from h1 h2 a b d f show ?thesis
    by blast
qed

section \<open>Garbled questions\<close>

text \<open>
  Claim C10.  For every question that is not blank and whose lower-cased text contains
  one of the substrings "murder", "oh i see", "that is", "of and that",
  \<open>query_chroma_db\<close> returns the fixed clarification message and calls neither the
  embedder nor the vector collection.
\<close>

theorem garbled_question_bypasses_collection:
  assumes "py_strip question_text \<noteq> []"
    and "\<exists>indicator \<in> set garbled_indicators. py_in indicator (py_lower question_text)"
  shows "query_chroma_db k question_text top_k = ([], Inr [clarify_message])"
  using assms by (simp add: query_chroma_db_def garbled_iff)

theorem garbled_question_bypasses_collection_witness:
  "py_strip ''Oh I see the parcel'' \<noteq> []
   \<and> (\<exists>indicator \<in> set garbled_indicators. py_in indicator (py_lower ''Oh I see the parcel''))
   \<and> query_chroma_db demo_kb ''Oh I see the parcel'' 1 = ([], Inr [clarify_message])"
proof -
  have h1: "py_strip ''Oh I see the parcel'' \<noteq> []"
    by code_simp
  have "py_in ''oh i see'' (py_lower ''Oh I see the parcel'')"
    by code_simp
  then have h2: "\<exists>indicator \<in> set garbled_indicators.
      py_in indicator (py_lower ''Oh I see the parcel'')"
    by (simp add: garbled_indicators_def)
  from h1 h2 garbled_question_bypasses_collection [OF h1 h2, of demo_kb 1] show ?thesis
    by blast
qed

section \<open>Facts about the pipeline\<close>

lemma calls_pm_start [simp]: "calls (pm_start w) = calls w"
  by (simp add: pm_start_def)

lemma calls_pm_record [simp]: "calls (pm_record m w) = calls w"
  by (simp add: pm_record_def split: option.splits)

lemma clock_pm_start [simp]: "clock (pm_start w) = clock w"
  by (simp add: pm_start_def)

lemma clock_pm_record [simp]: "clock (pm_record m w) = clock w"
  by (simp add: pm_record_def split: option.splits)

lemma calls_call [simp]: "calls (call e c w) = calls w @ [c]"
  by (simp add: call_def)

lemma clock_call [simp]: "clock (call e c w) = clock w + cost e c"
  by (simp add: call_def)

lemma new_calls_append: "calls w' = calls w @ cs \<Longrightarrow> new_calls w w' = cs"
  by (simp add: new_calls_def)

lemma transcribe_calls:
  "\<exists>cs. calls (snd (transcribe_audio_openai e a w)) = calls w @ cs
        \<and> list_all is_transcribe_call cs"
  by (simp add: transcribe_audio_openai_def Let_def split: outcome.splits)

lemma process_audio_stops:
  assumes "fst (transcribe_audio_openai e a w) = [] 
     \<or> startswith (fst (transcribe_audio_openai e a w)) ''[ERROR''"
  shows "process_audio e a w =
           (PError could_not_understand (clock (snd (transcribe_audio_openai e a w)) - clock w),
            snd (transcribe_audio_openai e a w))"
  using assms
  by (cases "transcribe_audio_openai e a w") (auto simp add: process_audio_def Let_def)

lemma transcribe_short:
  assumes "decode_webm e a = Ret len" and "len < 300"
  shows "transcribe_audio_openai e a w = ([], call e (CallDecode a) (pm_start w))"
  using assms by (simp add: transcribe_audio_openai_def Let_def)

section \<open>A failed transcription\<close>

text \<open>
  Claim C4, as the code has it.  When the transcription stage returns the empty string or
  a text that begins with \<open>[ERROR\<close>, \<open>process_audio\<close> returns at once: the only calls it
  has made are those of the transcription stage, none to the chat service and none to
  the synthesizer, and its result is an error that carries the fixed message that the
  audio could not be understood and the elapsed time, and names neither a stage nor a
  reason.
\<close>

theorem transcription_failure_short_circuits:
  assumes "fst (transcribe_audio_openai e a w) = []
     \<or> startswith (fst (transcribe_audio_openai e a w)) ''[ERROR''"
  shows "process_audio e a w =
           (PError could_not_understand
              (clock (snd (transcribe_audio_openai e a w)) - clock w),
            snd (transcribe_audio_openai e a w))
         \<and> list_all is_transcribe_call (new_calls w (snd (process_audio e a w)))"
proof -
  obtain cs where cs: "calls (snd (transcribe_audio_openai e a w)) = calls w @ cs"
    "list_all is_transcribe_call cs"
    using transcribe_calls by blast
  have "process_audio e a w =
           (PError could_not_understand
              (clock (snd (transcribe_audio_openai e a w)) - clock w),
            snd (transcribe_audio_openai e a w))"
    using assms by (rule process_audio_stops)
  then show ?thesis
    using cs by (simp add: new_calls_append)
qed

theorem transcription_failure_short_circuits_witness:
  "fst (transcribe_audio_openai env_nokey demo_audio world0) = ''[ERROR: API key not configured]''
   \<and> startswith ''[ERROR: API key not configured]'' ''[ERROR''
   \<and> fst (process_audio env_nokey demo_audio world0) = PError could_not_understand 120
   \<and> list_all is_transcribe_call (new_calls world0 (snd (process_audio env_nokey demo_audio world0)))
   \<and> new_calls world0 (snd (process_audio env_nokey demo_audio world0))
       = [CallDecode demo_audio, CallExport demo_audio]"
proof -
  have h1: "fst (transcribe_audio_openai env_nokey demo_audio world0)
      = ''[ERROR: API key not configured]''"
    by code_simp
  have h2: "startswith ''[ERROR: API key not configured]'' ''[ERROR''"
    by code_simp
  have h3: "clock (snd (transcribe_audio_openai env_nokey demo_audio world0)) - clock world0 = 120"
    by code_simp
  have h4: "new_calls world0 (snd (transcribe_audio_openai env_nokey demo_audio world0))
       = [CallDecode demo_audio, CallExport demo_audio]"
    by code_simp
  from h1 h2 have "fst (transcribe_audio_openai env_nokey demo_audio world0) = []
     \<or> startswith (fst (transcribe_audio_openai env_nokey demo_audio world0)) ''[ERROR''"
    by simp
  note r = transcription_failure_short_circuits [OF this]
  from r h3 have a: "fst (process_audio env_nokey demo_audio world0)
      = PError could_not_understand 120"
    by simp
  from r have b: "list_all is_transcribe_call
      (new_calls world0 (snd (process_audio env_nokey demo_audio world0)))"
    by (rule conjunct2)
  from r h4 have c: "new_calls world0 (snd (process_audio env_nokey demo_audio world0))
       = [CallDecode demo_audio, CallExport demo_audio]"
    by simp
  from h1 h2 a b c show ?thesis
    by blast
qed

text \<open>
  The claim as stated fails.  Where the pipeline stops, for a missing API key as for an
  upload that is too short, the result is the same fixed message, which names neither
  stage nor reason.  And the marker \<open>[Transcription Error: ...]\<close>, which the
  transcription stage returns for an upload that cannot be decoded, does not stop it:
  both later stages run on it.
\<close>

theorem transcription_failure_counterexample:
  "fst (process_audio env_nokey demo_audio world0)
     = PError ''Could not understand audio. Please speak clearly and try again.'' 120
   \<and> fst (process_audio env_short demo_audio world0)
     = PError ''Could not understand audio. Please speak clearly and try again.'' 100
   \<and> fst (transcribe_audio_openai env_badwebm demo_audio world0)
     = ''[Transcription Error: Decoding failed]''
   \<and> new_calls world0 (snd (process_audio env_badwebm demo_audio world0))
     = [CallDecode demo_audio, CallChat ''[Transcription Error: Decoding failed]'',
        CallSynth ''It arrives tomorrow.'']"
  by code_simp

section \<open>An empty or error-marked transcript\<close>

text \<open>
  Claim C5, as the code has it.  For a transcript that is empty or begins with \<open>[ERROR\<close>,
  \<open>process_audio\<close> returns an error result with the fixed message that the audio could
  not be understood, having made the calls of the transcription stage only: it calls
  neither the chat service nor the synthesizer, so the synthesizer never receives that
  text.  The fixed prompts that ask the user to repeat are produced elsewhere: by
  \<open>get_openai_response\<close> when it is itself given a blank or \<open>[ERROR\<close>-marked text, and by
  \<open>query_chroma_db\<close> for a blank question; neither calls its service.
\<close>

theorem unusable_transcript_gives_fixed_message:
  "(fst (transcribe_audio_openai e a w) = []
      \<or> startswith (fst (transcribe_audio_openai e a w)) ''[ERROR'' \<longrightarrow>
      process_audio e a w
        = (PError could_not_understand (clock (snd (transcribe_audio_openai e a w)) - clock w),
           snd (transcribe_audio_openai e a w))
      \<and> list_all is_transcribe_call (new_calls w (snd (process_audio e a w))))
   \<and> (py_strip u = [] \<or> startswith u ''[ERROR'' \<longrightarrow>
        get_openai_response e u w = (repeat_prompt, w))
   \<and> (py_strip q = [] \<longrightarrow> query_chroma_db k q n = ([], Inr [sorry_message]))"
proof -
  have "process_audio e a w
        = (PError could_not_understand (clock (snd (transcribe_audio_openai e a w)) - clock w),
           snd (transcribe_audio_openai e a w))
      \<and> list_all is_transcribe_call (new_calls w (snd (process_audio e a w)))"
    if h: "fst (transcribe_audio_openai e a w) = []
      \<or> startswith (fst (transcribe_audio_openai e a w)) ''[ERROR''"
  proof -
    obtain cs where cs: "calls (snd (transcribe_audio_openai e a w)) = calls w @ cs"
      "list_all is_transcribe_call cs"
      using transcribe_calls by blast
    show ?thesis
      using process_audio_stops [OF h] cs by (simp add: new_calls_append)
  qed
  then show ?thesis
    by (auto simp: get_openai_response_def query_chroma_db_def)
qed

theorem unusable_transcript_gives_fixed_message_witness:
  "fst (transcribe_audio_openai env_short demo_audio world0) = []
   \<and> fst (process_audio env_short demo_audio world0) = PError could_not_understand 100
   \<and> list_all is_transcribe_call (new_calls world0 (snd (process_audio env_short demo_audio world0)))
   \<and> py_strip ''  '' = []
   \<and> get_openai_response env_short ''  '' world0 = (repeat_prompt, world0)
   \<and> py_strip '''' = []
   \<and> query_chroma_db demo_kb '''' 1 = ([], Inr [sorry_message])"
proof -
  have h1: "fst (transcribe_audio_openai env_short demo_audio world0) = []"
    by code_simp
  have h2: "py_strip ''  '' = []"
    by code_simp
  have h3: "py_strip '''' = []"
    by code_simp
  have h4: "clock (snd (transcribe_audio_openai env_short demo_audio world0)) - clock world0 = 100"
    by code_simp
  note r = unusable_transcript_gives_fixed_message
    [where e = env_short and a = demo_audio and w = world0 and u = "''  ''"
       and q = "[]" and k = demo_kb and n = 1]
  from r h1 h4 have a: "fst (process_audio env_short demo_audio world0)
       = PError could_not_understand 100"
    by simp
  from r h1 have a': "list_all is_transcribe_call
       (new_calls world0 (snd (process_audio env_short demo_audio world0)))"
    by blast
  from r h2 have b: "get_openai_response env_short ''  '' world0 = (repeat_prompt, world0)"
    by blast
  from r h3 have c: "query_chroma_db demo_kb [] 1 = ([], Inr [sorry_message])"
    by blast
  from h1 h2 h3 a a' b c show ?thesis
    by blast
qed

text \<open>
  The claim as stated fails: an upload of 100 ms gives the empty transcript, and the
  pipeline fails outright; the answer stage is not asked for a prompt, and no reply is
  produced.
\<close>

theorem fallback_prompt_counterexample:
  "fst (transcribe_audio_openai env_short demo_audio world0) = []
   \<and> fst (process_audio env_short demo_audio world0)
     = PError ''Could not understand audio. Please speak clearly and try again.'' 100
   \<and> new_calls world0 (snd (process_audio env_short demo_audio world0)) = [CallDecode demo_audio]
   \<and> fst (handle_message env_short (AudioData (Inr demo_audio)) world0)
     = [StateUpdate True,
        ErrorMsg ''Could not understand audio. Please speak clearly and try again.'' (Some 100),
        StateUpdate False]"
  by code_simp

section \<open>An utterance that is too short\<close>

text \<open>
  Claim C6, as the code has it.  An upload whose audio is shorter than 300 ms does reach
  \<open>process_audio\<close>, and its transcription stage decodes it; the stage then returns the
  empty string, so that the upload is sent neither to the transcription service nor to
  the chat service nor to the synthesizer, and \<open>process_audio\<close> reports the error that
  any empty transcript gives.
\<close>

theorem short_audio_stops_after_decoding:
  assumes "decode_webm e a = Ret len" and "len < 300"
  shows "transcribe_audio_openai e a w = ([], call e (CallDecode a) (pm_start w))
     \<and> process_audio e a w
         = (PError could_not_understand (cost e (CallDecode a)), call e (CallDecode a) (pm_start w))
     \<and> new_calls w (snd (process_audio e a w)) = [CallDecode a]"
proof -
  have t: "transcribe_audio_openai e a w = ([], call e (CallDecode a) (pm_start w))"
    using assms by (rule transcribe_short)
  then have "process_audio e a w
         = (PError could_not_understand (cost e (CallDecode a)), call e (CallDecode a) (pm_start w))"
    using process_audio_stops [of e a w] by simp
  with t show ?thesis
    by (simp add: new_calls_def)
qed

theorem short_audio_stops_after_decoding_witness:
  "decode_webm env_short demo_audio = Ret 100
   \<and> (100 :: nat) < 300
   \<and> fst (process_audio env_short demo_audio world0) = PError could_not_understand 100
   \<and> new_calls world0 (snd (process_audio env_short demo_audio world0)) = [CallDecode demo_audio]"
proof -
  have h1: "decode_webm env_short demo_audio = Ret 100"
    by (simp add: env_short_def)
  have h2: "(100 :: nat) < 300"
    by simp
  have h3: "cost env_short (CallDecode demo_audio) = 100"
    by (simp add: env_short_def demo_env_def demo_cost_def)
  note r = short_audio_stops_after_decoding [OF h1 h2, of world0]
  from r h3 have a: "fst (process_audio env_short demo_audio world0)
      = PError could_not_understand 100"
    by simp
  from r have b: "new_calls world0 (snd (process_audio env_short demo_audio world0))
      = [CallDecode demo_audio]"
    by blast
  from h1 h2 a b show ?thesis
    by blast
qed

text \<open>
  The claim as stated fails: an upload of 100 ms is handed to \<open>process_audio\<close>, whose
  first stage decodes it, and the client is sent the error message that a transcription
  failing for another reason (here a missing API key) gives as well.
\<close>

theorem short_utterance_counterexample:
  "decode_webm env_short demo_audio = Ret 100
   \<and> calls (snd (handle_message env_short (AudioData (Inr demo_audio)) world0))
     = [CallDecode demo_audio]
   \<and> map view_msg (fst (handle_message env_short (AudioData (Inr demo_audio)) world0))
     = [VState True, VError could_not_understand, VState False]
   \<and> map view_msg (fst (handle_message env_nokey (AudioData (Inr demo_audio)) world0))
     = [VState True, VError could_not_understand, VState False]"
  by code_simp

section \<open>Connections and the shared state\<close>

text \<open>The steps of a handler that has the process to itself, one lemma for each point.\<close>

lemma handler_idle:
  "pt s = Receiving \<Longrightarrow> inbox s = [] \<Longrightarrow> handler_step e (s, w) = (s, w)"
  by (simp add: handler_step_def sess_step_def)

lemma handler_finishing:
  "pt s = Finishing \<Longrightarrow>
   handler_step e (s, w)
     = (send (StateUpdate False) (s\<lparr>pt := Receiving\<rparr>), w\<lparr>is_processing := False\<rparr>)"
  by (simp add: handler_step_def sess_step_def)

lemma handler_receiving:
  "pt s = Receiving \<Longrightarrow> inbox s = AudioData p # rest \<Longrightarrow>
   handler_step e (s, w)
     = (send (StateUpdate True) (s\<lparr>pt := Decoding p, inbox := rest\<rparr>),
        w\<lparr>is_processing := True\<rparr>)"
  by (simp add: handler_step_def sess_step_def)

lemma handler_decoding_bad:
  "pt s = Decoding (Inl m) \<Longrightarrow>
   handler_step e (s, w)
     = (send (ErrorMsg (''Failed to process audio: '' @ m) None) (s\<lparr>pt := Finishing\<rparr>), w)"
  by (simp add: handler_step_def sess_step_def)

lemma handler_decoding:
  "pt s = Decoding (Inr a) \<Longrightarrow>
   handler_step e (s, w) = (s\<lparr>pt := Transcribing a, total_start_time := clock w\<rparr>, w)"
  by (simp add: handler_step_def sess_step_def)

lemma handler_transcribing:
  "pt s = Transcribing a \<Longrightarrow>
   handler_step e (s, w)
     = (s\<lparr>pt := Transcribed (fst (transcribe_audio_openai e a w))\<rparr>,
        snd (transcribe_audio_openai e a w))"
  by (simp add: handler_step_def sess_step_def split_beta)

lemma handler_transcribed_bad:
  "pt s = Transcribed t \<Longrightarrow> t = [] \<or> startswith t ''[ERROR'' \<Longrightarrow>
   handler_step e (s, w) = fail_with could_not_understand s w"
  by (simp add: handler_step_def sess_step_def)

lemma handler_transcribed:
  "pt s = Transcribed t \<Longrightarrow> \<not> (t = [] \<or> startswith t ''[ERROR'') \<Longrightarrow>
   handler_step e (s, w) = (s\<lparr>pt := Answering t\<rparr>, w)"
  by (simp add: handler_step_def sess_step_def)

lemma handler_answering:
  "pt s = Answering t \<Longrightarrow>
   handler_step e (s, w)
     = (s\<lparr>pt := Answered t (fst (get_openai_response e t w))\<rparr>,
        snd (get_openai_response e t w))"
  by (simp add: handler_step_def sess_step_def split_beta)

lemma handler_answered:
  "pt s = Answered t r \<Longrightarrow>
   handler_step e (s, w)
     = (s\<lparr>pt := Synthesizing t r, tts_started := clock w\<rparr>, tts_begin e r w)"
  by (simp add: handler_step_def sess_step_def)

lemma handler_synthesizing:
  "pt s = Synthesizing t r \<Longrightarrow> tts_started s = clock w0 \<Longrightarrow> w = tts_begin e r w0 \<Longrightarrow>
   handler_step e (s, w)
     = (s\<lparr>pt := Synthesized t r (fst (text_to_speech e r w0))\<rparr>, snd (text_to_speech e r w0))"
  by (simp add: handler_step_def sess_step_def split_beta text_to_speech_def)
    (simp add: tts_end_def tts_begin_def Let_def synth_timeout_def)

lemma handler_synth_none:
  "pt s = Synthesized t r None \<Longrightarrow> handler_step e (s, w) = fail_with took_too_long s w"
  by (simp add: handler_step_def sess_step_def)

lemma handler_synth:
  "pt s = Synthesized t r (Some a) \<Longrightarrow>
   handler_step e (s, w)
     = (send (ResponseMsg t r a (clock w - total_start_time s) (get_metrics w))
          (s\<lparr>pt := Finishing\<rparr>), w)"
  by (simp add: handler_step_def sess_step_def)

lemmas handler_step_simps =
  handler_idle handler_finishing handler_receiving handler_decoding_bad handler_decoding
  handler_transcribing handler_transcribed_bad handler_transcribed handler_answering
  handler_answered handler_synth_none handler_synth

text \<open>
  Run without interruption, the steps of the handler do what the body of the receive
  loop does with \<open>process_audio\<close>: nine steps serve one upload, send the same messages
  and leave the same world.
\<close>

lemma handler_steps_serve_one_upload:
  assumes "pt s = Receiving" and "inbox s = [AudioData p]"
  shows "pt (fst ((handler_step e ^^ 9) (s, w))) = Receiving
     \<and> inbox (fst ((handler_step e ^^ 9) (s, w))) = []
     \<and> outbox (fst ((handler_step e ^^ 9) (s, w)))
         = outbox s @ fst (handle_message e (AudioData p) w)
     \<and> snd ((handler_step e ^^ 9) (s, w)) = snd (handle_message e (AudioData p) w)"
proof (cases p)
  case (Inl m)
  then show ?thesis
    using assms by (simp add: numeral_eq_Suc handler_step_simps send_def handle_message_def)
next
  case (Inr a)
  let ?w = "w\<lparr>is_processing := True\<rparr>"
  obtain t w1 where t: "transcribe_audio_openai e a ?w = (t, w1)"
    by force
  show ?thesis
  proof (cases "t = [] \<or> startswith t ''[ERROR''")
    case True
    then show ?thesis
      using assms Inr t
      by (auto simp add: numeral_eq_Suc handler_step_simps send_def fail_with_def
          handle_message_def process_audio_def)
  next
    case False
    obtain r w2 where r: "get_openai_response e t w1 = (r, w2)"
      by force
    obtain au w3 where au: "text_to_speech e r w2 = (au, w3)"
      by force
    have five: "(handler_step e ^^ 5) (s, w)
        = (send (StateUpdate True) (s\<lparr>pt := Answered t r, inbox := [], total_start_time := clock w\<rparr>),
           w2)"
      using assms Inr t r False
      by (simp add: numeral_eq_Suc handler_step_simps send_def)
    have seven: "(handler_step e ^^ 7) (s, w)
        = (send (StateUpdate True)
             (s\<lparr>pt := Synthesized t r au, inbox := [], total_start_time := clock w,
                tts_started := clock w2\<rparr>), w3)"
    proof -
      have "(handler_step e ^^ 7) (s, w) = (handler_step e ^^ 2) ((handler_step e ^^ 5) (s, w))"
        using funpow_add [of 2 5 "handler_step e"] by simp
      also have "\<dots> = handler_step e (handler_step e
          (send (StateUpdate True)
             (s\<lparr>pt := Answered t r, inbox := [], total_start_time := clock w\<rparr>), w2))"
        by (simp only: five) (simp add: numeral_2_eq_2)
      also have "\<dots> = (send (StateUpdate True)
             (s\<lparr>pt := Synthesized t r au, inbox := [], total_start_time := clock w,
                tts_started := clock w2\<rparr>), w3)"
        using au
        by (simp add: handler_answered send_def handler_synthesizing [where ?w0.0 = w2])
      finally show ?thesis .
    qed
    have "(handler_step e ^^ 9) (s, w) = (handler_step e ^^ 2) ((handler_step e ^^ 7) (s, w))"
      using funpow_add [of 2 7 "handler_step e"] by simp
    also have "\<dots> = handler_step e (handler_step e
          (send (StateUpdate True)
             (s\<lparr>pt := Synthesized t r au, inbox := [], total_start_time := clock w,
                tts_started := clock w2\<rparr>), w3))"
      by (simp only: seven) (simp add: numeral_2_eq_2)
    finally show ?thesis
      using assms Inr t r au False
      by (cases au)
        (auto simp add: handler_step_simps send_def fail_with_def
          handle_message_def process_audio_def)
  qed
qed

text \<open>What the first two stages return does not depend on the world.\<close>

lemma transcribe_same:
  "fst (transcribe_audio_openai e a w) = fst (transcribe_audio_openai e a w')"
  by (simp add: transcribe_audio_openai_def Let_def split: outcome.splits)

lemma response_same:
  "fst (get_openai_response e a w) = fst (get_openai_response e a w')"
  by (simp add: get_openai_response_def Let_def split: outcome.splits sum.splits)

text \<open>
  The end of the synthesis: cut off in every world when the stream alone takes too long;
  otherwise cut off or complete, and complete when the deadline has not passed.
\<close>

lemma tts_end_late:
  "synth_timeout < cost e (CallSynth (limit_text r)) \<Longrightarrow> fst (tts_end e r st b w) = None"
  by (simp add: tts_end_def Let_def)

lemma tts_end_cases:
  "\<not> synth_timeout < cost e (CallSynth (limit_text r)) \<Longrightarrow>
   fst (tts_end e r st b w) = None \<or> fst (tts_end e r st b w) = tts_outcome e r"
  by (simp add: tts_end_def Let_def tts_outcome_def split: outcome.splits)

lemma tts_end_in_time:
  "\<not> synth_timeout < cost e (CallSynth (limit_text r)) \<Longrightarrow> clock w \<le> st + synth_timeout \<Longrightarrow>
   fst (tts_end e r st b w) = tts_outcome e r"
  by (simp add: tts_end_def Let_def tts_outcome_def split: outcome.splits)

lemma tts_outcome_Some: "\<exists>au. tts_outcome e r = Some au"
  by (simp add: tts_outcome_def split: outcome.splits)

lemma cut_off_refl [simp]: "cut_off v v"
  by (simp add: cut_off_def)

lemma follows_refl: "follows s s"
  by (simp add: follows_def pt_cut_def list_all2_same)

text \<open>
  A step of a handler that follows another: it follows it after the step of both, in
  whatever worlds, when the deadline of the second has not passed; and the second stays
  in time when its world is not changed in between.
\<close>

lemma follows_step:
  assumes f: "follows s s'" and t: "in_time s' w'"
  shows "follows (fst (sess_step e b s w)) (fst (sess_step e b s' w'))
     \<and> in_time (fst (sess_step e b s' w')) (snd (sess_step e b s' w'))"
proof -
  from f have ib: "inbox s = inbox s'" and pc: "pt_cut (pt s) (pt s')"
    and pl: "list_all2 cut_off (payload s) (payload s')"
    by (simp_all add: follows_def)
  show ?thesis
  proof (cases "pt s = pt s'")
    case False
    with pc obtain tr resp au where
      "pt s = Synthesized tr resp None" "pt s' = Synthesized tr resp (Some au)"
      by (auto simp: pt_cut_def)
    then show ?thesis
      using ib pl
      by (simp add: sess_step_def follows_def fail_with_def send_def payload_def pt_cut_def
          in_time_def cut_off_def list_all2_appendI)
  next
    case True
    show ?thesis
    proof (cases "pt s'")
      case Receiving
      then show ?thesis
        using True ib pl
        by (auto simp add: sess_step_def split_beta follows_def send_def payload_def pt_cut_def
            in_time_def list_all2_appendI split: list.splits in_msg.splits)
    next
      case (Decoding payload)
      then show ?thesis
        using True ib pl
        by (auto simp add: sess_step_def split_beta follows_def send_def payload_def pt_cut_def
            in_time_def list_all2_appendI split: sum.splits)
    next
      case (Transcribing a)
      then show ?thesis
        using True ib pl transcribe_same [of e a w w']
        by (auto simp add: sess_step_def split_beta follows_def payload_def pt_cut_def
            in_time_def)
    next
      case (Transcribed tr)
      then show ?thesis
        using True ib pl
        by (auto simp add: sess_step_def split_beta follows_def send_def fail_with_def
            payload_def pt_cut_def in_time_def list_all2_appendI)
    next
      case (Answering tr)
      then show ?thesis
        using True ib pl response_same [of e tr w w']
        by (auto simp add: sess_step_def split_beta follows_def payload_def pt_cut_def
            in_time_def)
    next
      case (Answered tr r)
      then show ?thesis
        using True ib pl
        by (auto simp add: sess_step_def split_beta follows_def payload_def pt_cut_def
            in_time_def tts_begin_def synth_timeout_def)
    next
      case (Synthesizing tr r)
      have ck: "clock w' \<le> tts_started s' + synth_timeout"
        using t Synthesizing by (simp add: in_time_def)
      show ?thesis
      proof (cases "synth_timeout < cost e (CallSynth (limit_text r))")
        case late: True
        show ?thesis
          using Synthesizing True ib pl tts_end_late [OF late]
          by (auto simp add: sess_step_def split_beta follows_def payload_def pt_cut_def
              in_time_def)
      next
        case nl: False
        obtain au where au: "tts_outcome e r = Some au"
          using tts_outcome_Some by blast
        have r: "fst (tts_end e r (tts_started s') b w') = Some au"
          using tts_end_in_time [OF nl ck] au by simp
        have l: "fst (tts_end e r (tts_started s) b w) = None
            \<or> fst (tts_end e r (tts_started s) b w) = Some au"
          using tts_end_cases [OF nl] au by simp
        show ?thesis
          using Synthesizing True ib pl r l
          by (auto simp add: sess_step_def split_beta follows_def payload_def pt_cut_def
              in_time_def)
      qed
    next
      case (Synthesized tr r a)
      then show ?thesis
        using True ib pl
        by (auto simp add: sess_step_def split_beta follows_def send_def fail_with_def
            payload_def pt_cut_def in_time_def list_all2_appendI split: option.splits)
    next
      case Finishing
      then show ?thesis
        using True ib pl
        by (auto simp add: sess_step_def split_beta follows_def send_def payload_def pt_cut_def
            in_time_def list_all2_appendI)
    next
      case Ended
      then show ?thesis
        using True ib pl
        by (auto simp add: sess_step_def split_beta follows_def payload_def pt_cut_def
            in_time_def)
    qed
  qed
qed

lemma other_event:
  "\<not> concerns i ev \<Longrightarrow> sessions (sys_step envs ev sys) i = sessions sys i"
  by (cases ev) (auto simp: sys_step_def split_beta)

lemma own_event:
  assumes "concerns i ev" and "envs i = envs' i"
    and "follows (sessions sys i) (sessions sys' i)"
    and "in_time (sessions sys' i) (shared sys')"
  shows "follows (sessions (sys_step envs ev sys) i) (sessions (sys_step envs' ev sys') i)
     \<and> in_time (sessions (sys_step envs' ev sys') i) (shared (sys_step envs' ev sys'))"
proof (cases ev)
  case (Connect j)
  then show ?thesis
    using assms(1) by (simp add: sys_step_def follows_refl in_time_def session0_def)
next
  case (Deliver j m)
  then show ?thesis
    using assms by (simp add: sys_step_def follows_def payload_def in_time_def)
next
  case (Step j b)
  then have "j = i"
    using assms by simp
  with Step assms(2)
    follows_step [OF assms(3) assms(4), of "envs' i" b "shared sys"]
  show ?thesis
    by (simp add: sys_step_def split_beta)
qed

text \<open>
  A connection in any run follows itself in the run of its own events alone, started in
  any system in which it is followed and in time.
\<close>

lemma run_follows_own_events:
  assumes "envs i = envs' i"
  shows "follows (sessions sys i) (sessions sys' i) \<Longrightarrow> in_time (sessions sys' i) (shared sys')
     \<Longrightarrow> follows (sessions (run_schedule envs evs sys) i)
           (sessions (run_schedule envs' (filter (concerns i) evs) sys') i)"
proof (induction evs arbitrary: sys sys')
  case Nil
  then show ?case
    by (simp add: run_schedule_def)
next
  case (Cons ev evs)
  show ?case
  proof (cases "concerns i ev")
    case True
    note st = own_event [where envs = envs and envs' = envs',
        OF True assms Cons.prems(1) Cons.prems(2)]
    have "follows (sessions (run_schedule envs evs (sys_step envs ev sys)) i)
        (sessions (run_schedule envs' (filter (concerns i) evs) (sys_step envs' ev sys')) i)"
      using st by (intro Cons.IH) simp_all
    then show ?thesis
      using True by (simp add: run_schedule_def)
  next
    case False
    have "follows (sessions (run_schedule envs evs (sys_step envs ev sys)) i)
        (sessions (run_schedule envs' (filter (concerns i) evs) sys') i)"
      using other_event [OF False, of envs sys] Cons.prems by (intro Cons.IH) simp_all
    then show ?thesis
      using False by (simp add: run_schedule_def)
  qed
qed

lemma cut_off_agree: "cut_off x z \<Longrightarrow> cut_off y z \<Longrightarrow> agree x y"
  by (auto simp add: cut_off_def agree_def)

lemma list_all2_cut_off_agree:
  "list_all2 cut_off xs zs \<Longrightarrow> list_all2 cut_off ys zs \<Longrightarrow> list_all2 agree xs ys"
proof (induction xs zs arbitrary: ys rule: list_all2_induct)
  case Nil
  then show ?case
    by simp
next
  case (Cons x xs z zs)
  from Cons.prems obtain y ys' where ys: "ys = y # ys'" "cut_off y z" "list_all2 cut_off ys' zs"
    by (cases ys) auto
  with Cons show ?case
    by (simp add: cut_off_agree)
qed

text \<open>
  Claim C8, as the code has it.  The turn flag \<open>is_processing\<close>, the slot
  \<open>current_websocket\<close>, the performance monitor and the event loop are shared by all
  connections.  What a connection is sent is still its own, in this sense: take two runs
  of the server in which the connection has the same services, starts with the same
  messages pending and sent at the same point of its handler, outside the synthesis, and
  takes part in the same events.  Then at the end it has the same messages pending in
  both, and it has been sent the same messages, one for one, their processing time and
  metrics apart, except where one run sent the error of the timeout in place of the
  response that the other sent.
\<close>

theorem connection_payload_is_isolated:
  assumes "envs i = envs' i"
    and "sview (sessions sys i) = sview (sessions sys' i)"
    and "\<not> synthesizing (pt (sessions sys i))"
    and "filter (concerns i) evs = filter (concerns i) evs'"
  shows "list_all2 agree (payload (sessions (run_schedule envs evs sys) i))
           (payload (sessions (run_schedule envs' evs' sys') i))
     \<and> inbox (sessions (run_schedule envs evs sys) i)
         = inbox (sessions (run_schedule envs' evs' sys') i)"
proof -
  let ?alone = "sessions (run_schedule envs' (filter (concerns i) evs') sys') i"
  have same: "pt (sessions sys i) = pt (sessions sys' i)"
    "inbox (sessions sys i) = inbox (sessions sys' i)"
    "payload (sessions sys i) = payload (sessions sys' i)"
    using assms(2) by (simp_all add: sview_def)
  have start: "follows (sessions sys i) (sessions sys' i)"
    using same by (simp add: follows_def pt_cut_def list_all2_same)
  have time: "in_time (sessions sys' i) (shared sys')"
    using assms(3) same by (simp add: in_time_def)
  have "follows (sessions (run_schedule envs evs sys) i)
      (sessions (run_schedule envs' (filter (concerns i) evs) sys') i)"
    using assms(1) start time by (rule run_follows_own_events [where envs = envs and envs' = envs'])
  then have one: "follows (sessions (run_schedule envs evs sys) i) ?alone"
    using assms(4) by simp
  have two: "follows (sessions (run_schedule envs' evs' sys') i) ?alone"
    by (rule run_follows_own_events [where envs = envs' and envs' = envs'])
      (simp_all add: follows_refl time)
  from one two show ?thesis
    by (auto simp add: follows_def intro: list_all2_cut_off_agree)
qed

theorem connection_payload_is_isolated_witness:
  "demo_envs_slower 0 = demo_envs 0
   \<and> sview (sessions system0 0) = sview (sessions system0 0)
   \<and> \<not> synthesizing (pt (sessions system0 0))
   \<and> filter (concerns 0) schedule_busy = filter (concerns 0) schedule_idle
   \<and> payload (sessions (run_schedule demo_envs_slower schedule_busy system0) 0)
       = [VState True, VError took_too_long, VState False]
   \<and> payload (sessions (run_schedule demo_envs schedule_idle system0) 0)
       = [VState True,
          VResponse ''Where is my parcel?'' ''It arrives tomorrow.'' [73, 68, 51, 4],
          VState False]
   \<and> list_all2 agree (payload (sessions (run_schedule demo_envs_slower schedule_busy system0) 0))
       (payload (sessions (run_schedule demo_envs schedule_idle system0) 0))
   \<and> inbox (sessions (run_schedule demo_envs_slower schedule_busy system0) 0)
       = inbox (sessions (run_schedule demo_envs schedule_idle system0) 0)"
proof -
  have h1: "demo_envs_slower 0 = demo_envs 0"
    by (simp add: demo_envs_slower_def demo_envs_def)
  have h2: "sview (sessions system0 0) = sview (sessions system0 0)"
    by simp
  have h3: "\<not> synthesizing (pt (sessions system0 0))"
    by (simp add: system0_def session0_def)
  have h4: "filter (concerns 0) schedule_busy = filter (concerns 0) schedule_idle"
    by (simp add: schedule_busy_def schedule_idle_def first_half_def second_half_def
        other_upload_def)
  have h5: "payload (sessions (run_schedule demo_envs_slower schedule_busy system0) 0)
       = [VState True, VError took_too_long, VState False]"
    by code_simp
  have h6: "payload (sessions (run_schedule demo_envs schedule_idle system0) 0)
       = [VState True,
          VResponse ''Where is my parcel?'' ''It arrives tomorrow.'' [73, 68, 51, 4],
          VState False]"
    by code_simp
  note r = connection_payload_is_isolated
    [where envs = demo_envs_slower and envs' = demo_envs, OF h1 h2 h3 h4]
  from h1 h2 h3 h4 h5 h6 r show ?thesis
    by blast
qed

text \<open>
  The claim as stated fails.  Connection 0 sends the same recording in all three runs and
  waits for the chunks of its synthesis.  Alone, it is sent its response with its own
  metrics.  When connection 1 is served meanwhile, connection 0 is sent the transcription
  and response times of connection 1 as its metrics, and its \<open>finally\<close> clears the shared
  flag \<open>is_processing\<close> while connection 1 is still being served.  When the services of
  connection 1 keep the process busy for 20 seconds, the timeout of connection 0 expires
  and it is sent the error in place of its response.
\<close>

theorem session_isolation_counterexample:
  "outbox (sessions (run_schedule demo_envs schedule_idle system0) 0)
     = [StateUpdate True,
        ResponseMsg ''Where is my parcel?'' ''It arrives tomorrow.'' [73, 68, 51, 4] 1920
          ([(Transcription_time, 1120), (Response_time, 500), (Tts_time, 300)], 1920),
        StateUpdate False]
   \<and> outbox (sessions (run_schedule demo_envs schedule_busy system0) 0)
     = [StateUpdate True,
        ResponseMsg ''Where is my parcel?'' ''It arrives tomorrow.'' [73, 68, 51, 4] 9620
          ([(Transcription_time, 6000), (Response_time, 2000), (Tts_time, 0)], 8000),
        StateUpdate False]
   \<and> pt (sessions (run_schedule demo_envs schedule_busy system0) 1)
     = Synthesizing ''Where is my parcel?'' ''It arrives tomorrow.''
   \<and> is_processing (shared (run_schedule demo_envs schedule_busy system0)) = False
   \<and> outbox (sessions (run_schedule demo_envs_slower schedule_busy system0) 0)
     = [StateUpdate True, ErrorMsg took_too_long (Some 21620), StateUpdate False]"
  by code_simp

section \<open>Voice detection in the browser\<close>

lemma frame_keeps_recording:
  "isRecording c \<Longrightarrow>
     isRecording (step (Frame a) c) \<and> history (step (Frame a) c) = history c"
  by (simp add: step_def checkAudio_def)

lemma frame_starts_recording:
  assumes "autoMode c" and "microphone c" and "webm_supported c"
    and "\<not> isRecording c" and "\<not> isProcessing c" and "volumeThreshold < a"
  shows "history (step (Frame a) c) = history c @ [StartRecording]
     \<and> isRecording (step (Frame a) c)"
  using assms by (simp add: step_def checkAudio_def startRecording_def)

text \<open>
  While a recording is open in auto mode and less time than \<open>limit\<close> has passed, where
  no timer is due before \<open>limit\<close>, the events of voice detection keep it open.
\<close>

lemma open_step:
  assumes "autoMode c \<and> microphone c \<and> isRecording c \<and> history c = h"
    and "\<forall>due. silenceTimeout c = Some due \<longrightarrow> limit \<le> due"
    and "is_vad_event ev" and "now c + elapsed [ev] < limit" and "limit \<le> now c + silenceDelay"
  shows "(autoMode (step ev c) \<and> microphone (step ev c) \<and> isRecording (step ev c)
           \<and> history (step ev c) = h)
     \<and> (\<forall>due. silenceTimeout (step ev c) = Some due \<longrightarrow> limit \<le> due)
     \<and> now (step ev c) = now c + elapsed [ev]"
  using assms
  by (cases ev)
    (auto simp add: step_def checkAudio_def silence_callback_def split: option.splits)

lemma open_run:
  assumes "list_all is_vad_event evs"
  shows "autoMode c \<and> microphone c \<and> isRecording c \<and> history c = h \<Longrightarrow>
     \<forall>due. silenceTimeout c = Some due \<longrightarrow> limit \<le> due \<Longrightarrow>
     now c + elapsed evs < limit \<Longrightarrow> limit \<le> now c + silenceDelay \<Longrightarrow>
     (autoMode (run evs c) \<and> microphone (run evs c) \<and> isRecording (run evs c)
        \<and> history (run evs c) = h)
     \<and> now (run evs c) = now c + elapsed evs"
  using assms
proof (induction evs arbitrary: c)
  case Nil
  then show ?case
    by (simp add: run_def)
next
  case (Cons ev evs)
  have el: "elapsed (ev # evs) = elapsed [ev] + elapsed evs"
    by (cases ev) simp_all
  have ev: "is_vad_event ev" and evs: "list_all is_vad_event evs"
    using Cons.prems(5) by simp_all
  have lt: "now c + elapsed [ev] < limit"
    using Cons.prems(3) el by simp
  note st = open_step [OF Cons.prems(1) Cons.prems(2) ev lt Cons.prems(4)]
  have "(autoMode (run evs (step ev c)) \<and> microphone (run evs (step ev c))
          \<and> isRecording (run evs (step ev c)) \<and> history (run evs (step ev c)) = h)
     \<and> now (run evs (step ev c)) = now (step ev c) + elapsed evs"
  proof (rule Cons.IH)
    show "autoMode (step ev c) \<and> microphone (step ev c) \<and> isRecording (step ev c)
        \<and> history (step ev c) = h"
      using st by blast
    show "\<forall>due. silenceTimeout (step ev c) = Some due \<longrightarrow> limit \<le> due"
      using st by blast
    show "now (step ev c) + elapsed evs < limit"
      using st Cons.prems(3) el by simp
    show "limit \<le> now (step ev c) + silenceDelay"
      using st Cons.prems(4) by simp
    show "list_all is_vad_event evs"
      by (rule evs)
  qed
  then show ?case
    using st el by (simp add: run_def)
qed

lemma run_append: "run (xs @ ys) c = run ys (run xs c)"
  by (simp add: run_def)

lemma run_single: "run [ev] c = step ev c"
  by (simp add: run_def)

text \<open>
  Claim C3.  While an utterance is open (a recording runs in auto mode, with no silence
  timer pending), let the loudness drop below the low threshold, half the start
  threshold, for a span shorter than the silence delay of two seconds, whatever it does
  in that span, and then be above the low threshold in a frame: no stop of speech is
  emitted, the recording is still open, and no timer is pending.  No stop is emitted
  from a frame alone, whatever its loudness: a frame leaves an open recording open, and
  only the callback of the timer closes it.  (The start of speech is the first frame
  above the start threshold, when no recording is open and the server is not
  processing.)
\<close>

theorem dip_shorter_than_delay_keeps_recording:
  assumes "autoMode c" and "microphone c" and "isRecording c" and "silenceTimeout c = None"
    and "list_all is_vad_event evs" and "elapsed evs < silenceDelay"
    and "volumeThreshold / 2 < a"
  shows "isRecording (run (evs @ [Frame a]) c)
     \<and> history (run (evs @ [Frame a]) c) = history c
     \<and> silenceTimeout (run (evs @ [Frame a]) c) = None
     \<and> (isRecording c1 \<longrightarrow>
          isRecording (step (Frame a1) c1) \<and> history (step (Frame a1) c1) = history c1)
     \<and> (autoMode c2 \<and> microphone c2 \<and> webm_supported c2 \<and> \<not> isRecording c2
          \<and> \<not> isProcessing c2 \<and> volumeThreshold < a2 \<longrightarrow>
          history (step (Frame a2) c2) = history c2 @ [StartRecording])"
proof -
  have "(autoMode (run evs c) \<and> microphone (run evs c) \<and> isRecording (run evs c)
          \<and> history (run evs c) = history c)
     \<and> now (run evs c) = now c + elapsed evs"
    using assms(1-6)
    by (intro open_run [where limit = "now c + silenceDelay"]) simp_all
  then have "isRecording (step (Frame a) (run evs c))
     \<and> history (step (Frame a) (run evs c)) = history c
     \<and> silenceTimeout (step (Frame a) (run evs c)) = None"
    using assms(7) by (auto simp add: step_def checkAudio_def volumeThreshold_def)
  then show ?thesis
    using frame_keeps_recording [of c1 a1] frame_starts_recording [of c2 a2]
    by (simp add: run_append run_single)
qed

theorem dip_shorter_than_delay_keeps_recording_witness:
  "autoMode (run recording_events client0) \<and> microphone (run recording_events client0)
   \<and> isRecording (run recording_events client0)
   \<and> silenceTimeout (run recording_events client0) = None
   \<and> list_all is_vad_event dip_events \<and> elapsed dip_events < silenceDelay
   \<and> volumeThreshold / 2 < 20
   \<and> silenceTimeout (run dip_events (run recording_events client0)) = Some 2900
   \<and> isRecording (run (dip_events @ [Frame 20]) (run recording_events client0))
   \<and> history (run (dip_events @ [Frame 20]) (run recording_events client0)) = [StartRecording]
   \<and> silenceTimeout (run (dip_events @ [Frame 20]) (run recording_events client0)) = None
   \<and> isRecording (step (Frame 3) (run recording_events client0))
   \<and> autoMode (run listening_events client0) \<and> microphone (run listening_events client0)
   \<and> webm_supported (run listening_events client0)
   \<and> \<not> isRecording (run listening_events client0)
   \<and> \<not> isProcessing (run listening_events client0) \<and> volumeThreshold < 30
   \<and> history (step (Frame 30) (run listening_events client0)) = [StartRecording]"
proof -
  have h1: "autoMode (run recording_events client0)" by code_simp
  have h2: "microphone (run recording_events client0)" by code_simp
  have h3: "isRecording (run recording_events client0)" by code_simp
  have h4: "silenceTimeout (run recording_events client0) = None" by code_simp
  have h5: "list_all is_vad_event dip_events" by code_simp
  have h6: "elapsed dip_events < silenceDelay" by code_simp
  have h7: "volumeThreshold / 2 < 20" by (simp add: volumeThreshold_def)
  have h8: "history (run recording_events client0) = [StartRecording]" by code_simp
  have h9: "silenceTimeout (run dip_events (run recording_events client0)) = Some 2900"
    by code_simp
  have g1: "autoMode (run listening_events client0) \<and> microphone (run listening_events client0)
     \<and> webm_supported (run listening_events client0)
     \<and> \<not> isRecording (run listening_events client0)
     \<and> \<not> isProcessing (run listening_events client0) \<and> volumeThreshold < 30"
    by code_simp
  have g2: "history (run listening_events client0) = []" by code_simp
  note r = dip_shorter_than_delay_keeps_recording [OF h1 h2 h3 h4 h5 h6 h7,
      where ?c1.0 = "run recording_events client0" and ?a1.0 = 3
        and ?c2.0 = "run listening_events client0" and ?a2.0 = 30]
  from r h3 have a: "isRecording (step (Frame 3) (run recording_events client0))"
    by blast
  from r g1 g2 have b: "history (step (Frame 30) (run listening_events client0)) = [StartRecording]"
    by simp
  from r h8 have c: "isRecording (run (dip_events @ [Frame 20]) (run recording_events client0))
     \<and> history (run (dip_events @ [Frame 20]) (run recording_events client0)) = [StartRecording]
     \<and> silenceTimeout (run (dip_events @ [Frame 20]) (run recording_events client0)) = None"
    by simp
  from h1 h2 h3 h4 h5 h6 h7 h9 a b c g1 show ?thesis
    by blast
qed

section \<open>One utterance at a time\<close>

text \<open>
  Claim C1, as the code has it.  While a recording is open or the flag \<open>isProcessing\<close> is
  set (the server sets it when it takes an upload and clears it when it has answered), a
  frame of any loudness starts no recording: the flag \<open>isRecording\<close>, the list of
  recordings started and the chunks stay as they are.  On the server, the handler of a
  connection takes the next message only when it is back at \<open>receive_json\<close>, so that it
  runs the pipeline for one upload at a time.  The client has no state for the reply
  that is playing.
\<close>

theorem busy_client_starts_no_recording:
  "(isRecording c \<or> isProcessing c \<longrightarrow>
      isRecording (step (Frame a) c) = isRecording c
      \<and> history (step (Frame a) c) = history c
      \<and> audioChunks (step (Frame a) c) = audioChunks c)
   \<and> (pt s \<noteq> Receiving \<longrightarrow> inbox (fst (sess_step e expire s w)) = inbox s)"
proof -
  have "inbox (fst (sess_step e expire s w)) = inbox s" if "pt s \<noteq> Receiving"
    using that
    by (cases "pt s")
      (auto simp add: sess_step_def split_beta send_def fail_with_def
        split: sum.splits option.splits)
  then show ?thesis
    by (auto simp add: step_def checkAudio_def)
qed

theorem busy_client_starts_no_recording_witness:
  "isProcessing (run processing_events client0)
   \<and> \<not> isRecording (run processing_events client0)
   \<and> isRecording (step (Frame 90) (run processing_events client0)) = False
   \<and> history (step (Frame 90) (run processing_events client0)) = [StartRecording, StopRecording]
   \<and> pt (session0\<lparr>pt := Finishing, inbox := [OtherMsg]\<rparr>) \<noteq> Receiving
   \<and> inbox (fst (sess_step demo_env True (session0\<lparr>pt := Finishing, inbox := [OtherMsg]\<rparr>)
         world0))
       = [OtherMsg]"
proof -
  have h1: "isProcessing (run processing_events client0)" by code_simp
  have h2: "\<not> isRecording (run processing_events client0)" by code_simp
  have h3: "history (run processing_events client0) = [StartRecording, StopRecording]"
    by code_simp
  have h4: "pt (session0\<lparr>pt := Finishing, inbox := [OtherMsg]\<rparr>) \<noteq> Receiving"
    by simp
  have h5: "inbox (session0\<lparr>pt := Finishing, inbox := [OtherMsg]\<rparr>) = [OtherMsg]"
    by simp
  note r = busy_client_starts_no_recording [where c = "run processing_events client0"
      and a = 90 and s = "session0\<lparr>pt := Finishing, inbox := [OtherMsg]\<rparr>"
      and e = demo_env and expire = True and w = world0]
  from r h1 h2 h3 have a: "isRecording (step (Frame 90) (run processing_events client0)) = False
     \<and> history (step (Frame 90) (run processing_events client0)) = [StartRecording, StopRecording]"
    by simp
  from r h4 h5 have b:
    "inbox (fst (sess_step demo_env True (session0\<lparr>pt := Finishing, inbox := [OtherMsg]\<rparr>)
         world0))
       = [OtherMsg]"
    by simp
  from h1 h2 h4 a b show ?thesis
    by blast
qed

text \<open>
  The claim as stated fails for the reply that is playing.  After a full turn the reply
  plays, the server has cleared \<open>isProcessing\<close>, and a frame of loudness 30 starts a
  second recording during the playback.
\<close>

theorem speaking_counterexample:
  "playing (run turn_events client0)
   \<and> \<not> isRecording (run turn_events client0)
   \<and> history (run turn_events client0) = [StartRecording, StopRecording, PlayAudio]
   \<and> playing (step (Frame 30) (run turn_events client0))
   \<and> isRecording (step (Frame 30) (run turn_events client0))
   \<and> history (step (Frame 30) (run turn_events client0))
       = [StartRecording, StopRecording, PlayAudio, StartRecording]"
  by code_simp

section \<open>The length of an utterance\<close>

text \<open>
  Claim C7.  The code does not bound an utterance.  In auto mode, with the loudness above
  half the threshold, the recording that a loud frame started is still open after any
  time \<open>n\<close>, with \<open>n\<close> milliseconds captured; eleven seconds exceed the constant
  \<open>MAX_RECORDING_TIME\<close>, which nothing reads.
\<close>

theorem recording_has_no_bound:
  "isRecording (run (listening_events @ [Frame 30, Elapse n, Frame 30]) client0)
   \<and> recorded_ms (run (listening_events @ [Frame 30, Elapse n, Frame 30]) client0) = n
   \<and> MAX_RECORDING_TIME < recorded_ms (run long_speech_events client0)"
  by (simp add: run_def long_speech_events_def listening_events_def client0_def step_def
      toggleAutoMode_def startAutoListening_def checkAudio_def startRecording_def
      volumeThreshold_def MAX_RECORDING_TIME_def Let_def)

section \<open>The playback gate of the local assistant\<close>

lemma local_run_append: "local_run (xs @ ys) l = local_run ys (local_run xs l)"
  by (simp add: local_run_def)

lemma local_run_Cons: "local_run (ev # evs) l = local_run evs (local_step ev l)"
  by (simp add: local_run_def)

text \<open>A callback that tests the flag while it is cleared puts nothing, whatever its block.\<close>

lemma gated_callback:
  "\<not> listening_active l \<Longrightarrow> local_step (MicTest indata) l = l"
  "\<not> listening_active l \<Longrightarrow> in_flight l = None \<Longrightarrow> audio_callback indata l = l"
  by (simp_all add: callback_test_def audio_callback_def callback_put_def)

text \<open>The flag stays cleared from the step that clears it until the step that sets it.\<close>

lemma flag_stays_cleared:
  "\<not> listening_active l \<Longrightarrow> Spk GateOff \<notin> set evs \<Longrightarrow> \<not> listening_active (local_run evs l)"
proof (induction evs arbitrary: l)
  case Nil
  then show ?case
    by (simp add: local_run_def)
next
  case (Cons ev evs)
  have "\<not> listening_active (local_step ev l)"
  proof (cases ev)
    case (Spk st)
    then show ?thesis
      using Cons.prems by (cases st) simp_all
  next
    case (MicTest indata)
    then show ?thesis
      using Cons.prems by (simp add: callback_test_def)
  next
    case MicPut
    then show ?thesis
      using Cons.prems by (simp add: callback_put_def split: option.splits)
  qed
  then show ?case
    using Cons by (simp add: local_run_Cons)
qed

lemma gate_engaged:
  "Spk GateOn \<in> set evs \<Longrightarrow> Spk GateOff \<notin> set evs \<Longrightarrow> \<not> listening_active (local_run evs l)"
proof (induction evs arbitrary: l)
  case Nil
  then show ?case
    by simp
next
  case (Cons ev evs)
  show ?case
  proof (cases "ev = Spk GateOn")
    case True
    then have "\<not> listening_active (local_step ev l)"
      by simp
    then show ?thesis
      using Cons.prems(2) by (simp add: local_run_Cons flag_stays_cleared)
  next
    case False
    then show ?thesis
      using Cons by (simp add: local_run_Cons)
  qed
qed

text \<open>The callback does not touch what \<open>speak_text\<close> writes.\<close>

lemma gate_view_run:
  "gate_view l = gate_view l' \<Longrightarrow>
   gate_view (local_run evs l) = gate_view (local_run (filter is_spk evs) l')"
proof (induction evs arbitrary: l l')
  case Nil
  then show ?case
    by (simp add: local_run_def)
next
  case (Cons ev evs)
  show ?case
  proof (cases ev)
    case (Spk st)
    have "gate_view (speak_exec st l) = gate_view (speak_exec st l')"
      using Cons.prems by (cases st) (simp_all add: gate_view_def)
    from Cons.IH [OF this] Spk show ?thesis
      by (simp add: local_run_Cons)
  next
    case (MicTest indata)
    have "gate_view (local_step ev l) = gate_view l'"
      using Cons.prems MicTest by (simp add: gate_view_def callback_test_def)
    from Cons.IH [OF this] MicTest show ?thesis
      by (simp add: local_run_Cons)
  next
    case MicPut
    have "gate_view (local_step ev l) = gate_view l'"
      using Cons.prems MicPut by (simp add: gate_view_def callback_put_def split: option.splits)
    from Cons.IH [OF this] MicPut show ?thesis
      by (simp add: local_run_Cons)
  qed
qed

text \<open>
  The parts of claim C2 that hold.  Let the steps of \<open>speak_text\<close> run with the two parts
  of callbacks arriving between, before and after them in any number.  At every moment
  after the flag was cleared and before it is set, the flag is cleared and a callback
  that tests it then changes nothing, whatever its block.  At the end the flag is set,
  at a time that is at least half a second after \<open>speak_text\<close> began and, when audio was
  played, exactly half a second after the playback ended.
\<close>

lemma gate_holds_for_later_callbacks:
  assumes "filter is_spk evs = map Spk (speak_text sp text)"
  shows "(\<forall>k indata. Spk GateOn \<in> set (take k evs) \<and> Spk GateOff \<notin> set (take k evs) \<longrightarrow>
            \<not> listening_active (local_run (take k evs) l)
            \<and> local_step (MicTest indata) (local_run (take k evs) l) = local_run (take k evs) l)
     \<and> listening_active (local_run evs l)
     \<and> (\<exists>t. gate_cleared (local_run evs l) = Some t \<and> lclock l + 500 \<le> t
           \<and> (\<forall>audio_data. tts sp text = Inr audio_data \<longrightarrow>
                play_ended (local_run evs l) = Some (t - 500) \<and> 500 \<le> t))"
proof -
  have "gate_view (local_run evs l) = gate_view (local_run (map Spk (speak_text sp text)) l)"
    using gate_view_run [of l l evs] assms by simp
  moreover have "listening_active (local_run (map Spk (speak_text sp text)) l)
     \<and> (\<exists>t. gate_cleared (local_run (map Spk (speak_text sp text)) l) = Some t
           \<and> lclock l + 500 \<le> t
           \<and> (\<forall>audio_data. tts sp text = Inr audio_data \<longrightarrow>
                play_ended (local_run (map Spk (speak_text sp text)) l) = Some (t - 500)
                \<and> 500 \<le> t))"
    by (cases "tts sp text") (simp_all add: speak_text_def speak_body_def local_run_def)
  ultimately have fin: "listening_active (local_run evs l)
     \<and> (\<exists>t. gate_cleared (local_run evs l) = Some t \<and> lclock l + 500 \<le> t
           \<and> (\<forall>audio_data. tts sp text = Inr audio_data \<longrightarrow>
                play_ended (local_run evs l) = Some (t - 500) \<and> 500 \<le> t))"
    by (simp add: gate_view_def)
  have "\<not> listening_active (local_run (take k evs) l)
      \<and> local_step (MicTest indata) (local_run (take k evs) l) = local_run (take k evs) l"
    if "Spk GateOn \<in> set (take k evs)" and "Spk GateOff \<notin> set (take k evs)" for k indata
    using gate_engaged [OF that] gated_callback(1) by blast
  with fin show ?thesis
    by blast
qed


end
